theory Spec2Isabelle
  imports Complex_Main "HOL-Library.Sublist" "HOL-Library.Multiset"
begin

section \<open>The Parquet datasource of the distributed reader\<close>

text \<open>
  A shallow embedding of \<^verbatim>\<open>awswrangler/distributed/ray/datasources/arrow_parquet_datasource.py\<close>.
  Python floats are modelled by exact reals together with a not-a-number value; byte
  counts, row counts and indices are integers. Exceptions are values of the type
  \<open>error\<close>; a function that can raise returns \<open>error + 'a\<close>.
\<close>

subsection \<open>Constants\<close>

definition PARQUET_READER_ROW_BATCH_SIZE :: int where
  "PARQUET_READER_ROW_BATCH_SIZE = 10000"

definition FILE_READING_RETRY :: nat where
  "FILE_READING_RETRY = 8"

definition PARQUET_ENCODING_RATIO_ESTIMATE_DEFAULT :: real where
  "PARQUET_ENCODING_RATIO_ESTIMATE_DEFAULT = 5"

definition PARQUET_ENCODING_RATIO_ESTIMATE_LOWER_BOUND :: real where
  "PARQUET_ENCODING_RATIO_ESTIMATE_LOWER_BOUND = 2"

definition PARQUET_ENCODING_RATIO_ESTIMATE_SAMPLING_RATIO :: real where
  "PARQUET_ENCODING_RATIO_ESTIMATE_SAMPLING_RATIO = 1 / 100"

definition PARQUET_ENCODING_RATIO_ESTIMATE_MIN_NUM_SAMPLES :: int where
  "PARQUET_ENCODING_RATIO_ESTIMATE_MIN_NUM_SAMPLES = 2"

definition PARQUET_ENCODING_RATIO_ESTIMATE_MAX_NUM_SAMPLES :: int where
  "PARQUET_ENCODING_RATIO_ESTIMATE_MAX_NUM_SAMPLES = 10"

definition PARQUET_ENCODING_RATIO_ESTIMATE_NUM_ROWS :: int where
  "PARQUET_ENCODING_RATIO_ESTIMATE_NUM_ROWS = 1024"

subsection \<open>Exceptions and Python values\<close>

text \<open>
  \<open>Exception msg\<close> stands for an exception raised by a collaborator outside this
  module (the fragment deserialiser, the metadata provider), identified by its message.
\<close>

datatype error =
    ZeroDivisionError
  | ValueError
  | IndexError
  | AttributeError
  | TypeError
  | OSError string
  | ArrowInvalid string
  | InvalidFile string
  | Exception string

text \<open>A float: an exact real, or the not-a-number that \<^verbatim>\<open>np.mean([])\<close> returns.\<close>

datatype pyfloat = Finite real | NaN

text \<open>\<^verbatim>\<open>[f(x) for x in xs]\<close> where \<open>f\<close> may raise: the first exception ends the loop.\<close>

fun mapE :: "('a \<Rightarrow> error + 'b) \<Rightarrow> 'a list \<Rightarrow> error + 'b list" where
  "mapE f [] = Inr []"
| "mapE f (x # xs) =
     (case f x of
        Inl e \<Rightarrow> Inl e
      | Inr y \<Rightarrow> (case mapE f xs of Inl e \<Rightarrow> Inl e | Inr ys \<Rightarrow> Inr (y # ys)))"

text \<open>Python's \<^verbatim>\<open>xs[i]\<close>: a negative index counts from the end, out of range raises.\<close>

definition py_getitem :: "'a list \<Rightarrow> int \<Rightarrow> error + 'a" where
  "py_getitem xs i =
     (if 0 \<le> i \<and> i < int (length xs) then Inr (xs ! nat i)
      else if i < 0 \<and> - int (length xs) \<le> i then Inr (xs ! nat (int (length xs) + i))
      else Inl IndexError)"

text \<open>Float division \<^verbatim>\<open>a / b\<close> and floor division \<^verbatim>\<open>a // b\<close>: a zero divisor raises.\<close>

definition py_truediv :: "real \<Rightarrow> real \<Rightarrow> error + real" where
  "py_truediv a b = (if b = 0 then Inl ZeroDivisionError else Inr (a / b))"

definition py_floordiv :: "real \<Rightarrow> real \<Rightarrow> error + real" where
  "py_floordiv a b = (if b = 0 then Inl ZeroDivisionError else Inr (of_int \<lfloor>a / b\<rfloor>))"

text \<open>\<^verbatim>\<open>int(x)\<close> on a float truncates towards zero and raises on not-a-number.\<close>

definition py_int :: "pyfloat \<Rightarrow> error + int" where
  "py_int x =
     (case x of
        NaN \<Rightarrow> Inl ValueError
      | Finite r \<Rightarrow> Inr (if 0 \<le> r then \<lfloor>r\<rfloor> else \<lceil>r\<rceil>))"

text \<open>\<^verbatim>\<open>np.mean\<close> of a list of numbers; the mean of no numbers is not-a-number.\<close>

definition np_mean :: "real list \<Rightarrow> pyfloat" where
  "np_mean xs = (if xs = [] then NaN else Finite (sum_list xs / real (length xs)))"

text \<open>
  \<^verbatim>\<open>max(x, lb)\<close> with \<open>x\<close> first: the second argument wins only when it is greater,
  which it never is against not-a-number.
\<close>

definition py_max :: "pyfloat \<Rightarrow> real \<Rightarrow> pyfloat" where
  "py_max x lb = (case x of NaN \<Rightarrow> NaN | Finite r \<Rightarrow> Finite (if lb > r then lb else r))"

text \<open>\<^verbatim>\<open>n * x\<close> for an integer \<open>n\<close> and a float \<open>x\<close>.\<close>

definition py_scale :: "int \<Rightarrow> pyfloat \<Rightarrow> pyfloat" where
  "py_scale n x = (case x of NaN \<Rightarrow> NaN | Finite r \<Rightarrow> Finite (of_int n * r))"

subsection \<open>Sample records and the process-wide settings\<close>

record sample_info =
  actual_bytes_per_row :: "real option"
  estimated_bytes_per_row :: "real option"

text \<open>The two fields of Ray's \<^verbatim>\<open>DataContext.get_current()\<close> that the module reads.\<close>

record data_context =
  decoding_size_estimation :: bool
  target_max_block_size :: int

subsection \<open>Estimating the encoding ratio and the batch size\<close>

definition compute_encoding_ratio :: "sample_info \<Rightarrow> error + real" where
  "compute_encoding_ratio s =
     (case actual_bytes_per_row s of
        None \<Rightarrow> Inr PARQUET_ENCODING_RATIO_ESTIMATE_LOWER_BOUND
      | Some a \<Rightarrow>
          (case estimated_bytes_per_row s of
             None \<Rightarrow> Inr PARQUET_ENCODING_RATIO_ESTIMATE_LOWER_BOUND
           | Some e \<Rightarrow> py_truediv a e))"

definition estimate_files_encoding_ratio :: "data_context \<Rightarrow> sample_info list \<Rightarrow> error + pyfloat" where
  "estimate_files_encoding_ratio ctx sample_infos =
     (if \<not> decoding_size_estimation ctx then Inr (Finite PARQUET_ENCODING_RATIO_ESTIMATE_DEFAULT)
      else
        (case mapE compute_encoding_ratio sample_infos of
           Inl e \<Rightarrow> Inl e
         | Inr ratios \<Rightarrow> Inr (py_max (np_mean ratios) PARQUET_ENCODING_RATIO_ESTIMATE_LOWER_BOUND)))"

definition compute_batch_size_rows :: "data_context \<Rightarrow> sample_info \<Rightarrow> error + real" where
  "compute_batch_size_rows ctx s =
     (case actual_bytes_per_row s of
        None \<Rightarrow> Inr (of_int PARQUET_READER_ROW_BATCH_SIZE)
      | Some a \<Rightarrow>
          (let max_parquet_reader_row_batch_size_bytes = target_max_block_size ctx div 10
           in case py_floordiv (of_int max_parquet_reader_row_batch_size_bytes) a of
                Inl e \<Rightarrow> Inl e
              | Inr q \<Rightarrow> Inr (max 1 (min (of_int PARQUET_READER_ROW_BATCH_SIZE) q))))"

definition estimate_default_read_batch_size_rows ::
    "data_context \<Rightarrow> sample_info list \<Rightarrow> error + pyfloat" where
  "estimate_default_read_batch_size_rows ctx sample_infos =
     (case mapE (compute_batch_size_rows ctx) sample_infos of
        Inl e \<Rightarrow> Inl e
      | Inr sizes \<Rightarrow> Inr (np_mean sizes))"

subsection \<open>Choosing the files to sample\<close>

text \<open>
  \<^verbatim>\<open>int(num_files * 0.01)\<close> truncates the product. The double nearest to 0.01 lies just
  above 1/100, so the rounded product never falls below a whole number that the exact
  product reaches; an exact product that is not whole stays a hundredth away from the
  next whole number, far more than the rounding error. So the truncation equals that of
  the exact product.
\<close>

definition num_samples_of :: "nat \<Rightarrow> int" where
  "num_samples_of num_files =
     (let num_samples = \<lfloor>real num_files * PARQUET_ENCODING_RATIO_ESTIMATE_SAMPLING_RATIO\<rfloor>;
          min_num_samples = min PARQUET_ENCODING_RATIO_ESTIMATE_MIN_NUM_SAMPLES (int num_files);
          max_num_samples = min PARQUET_ENCODING_RATIO_ESTIMATE_MAX_NUM_SAMPLES (int num_files)
      in max (min num_samples max_num_samples) min_num_samples)"

text \<open>
  \<^verbatim>\<open>np.linspace(start, stop, num)\<close> with the end point included: \<open>num\<close> values
  \<open>start + i * step\<close>, the last one set to \<open>stop\<close> itself; here in exact arithmetic.
\<close>

definition np_linspace :: "real \<Rightarrow> real \<Rightarrow> int \<Rightarrow> real list" where
  "np_linspace start stop num =
     (let n = nat num; step = (stop - start) / real (n - 1)
      in map (\<lambda>i. if 1 < n \<and> i = n - 1 then stop else start + real i * step) [0..<n])"

text \<open>\<^verbatim>\<open>.astype(int)\<close> truncates towards zero.\<close>

definition astype_int :: "real \<Rightarrow> int" where
  "astype_int x = (if 0 \<le> x then \<lfloor>x\<rfloor> else \<lceil>x\<rceil>)"

definition sample_indices :: "nat \<Rightarrow> int list" where
  "sample_indices num_files =
     map astype_int (np_linspace 0 (real_of_int (int num_files - 1)) (num_samples_of num_files))"

definition file_samples :: "'h list \<Rightarrow> error + 'h list" where
  "file_samples pq_fragments = mapE (py_getitem pq_fragments) (sample_indices (length pq_fragments))"

subsection \<open>Resolving fragment handles, with retries\<close>

text \<open>
  A numpy random generator, described by what it will return: \<open>draws g k n\<close> is the
  result of \<^verbatim>\<open>permutation(n)\<close> when it is the \<open>k\<close>-th call on the generator, and
  \<open>drawn\<close> counts the calls made so far.
\<close>

record rng =
  draws :: "nat \<Rightarrow> nat \<Rightarrow> int list"
  drawn :: nat

definition permutation :: "rng \<Rightarrow> nat \<Rightarrow> int list \<times> rng" where
  "permutation g n = (draws g (drawn g) n, g\<lparr>drawn := Suc (drawn g)\<rparr>)"

text \<open>
  The world outside the module, as far as resolution sees it.
  \<open>deserialize_fragments w k handles\<close> is what the \<open>k\<close>-th call (from 0) of
  \<^verbatim>\<open>_deserialize_fragments(handles)\<close> within one retried resolution does: it returns the
  live fragments or raises. \<open>random_random w k\<close> is the value of the \<open>k\<close>-th call of
  \<^verbatim>\<open>random.random()\<close>. \<open>serialize\<close> builds the handle of a live fragment and
  \<open>default_rng\<close> is the generator that \<^verbatim>\<open>np.random.default_rng()\<close> returns.
\<close>

record ('h, 'r) world =
  serialize :: "'r \<Rightarrow> 'h"
  deserialize_fragments :: "nat \<Rightarrow> 'h list \<Rightarrow> error + 'r list"
  random_random :: "nat \<Rightarrow> real"
  default_rng :: rng

text \<open>
  One logged failure: the attempt number, the interval announced in the message (none on
  the last attempt) and whether the message carries the dump of the handles.
\<close>

datatype log_record = AttemptFailed nat "real option" bool

text \<open>
  The variables of the retry loop, with what it did to the outside: the messages logged,
  the sleeps taken, and the number of calls made to the random source and to the resolver.
\<close>

record retry_state =
  min_interval :: real
  final_exception :: "error option"
  logged :: "log_record list"
  slept :: "real list"
  random_calls :: nat
  attempts :: nat

definition retry_state0 :: retry_state where
  "retry_state0 =
     \<lparr>min_interval = 0, final_exception = None, logged = [], slept = [],
      random_calls = 0, attempts = 0\<rparr>"

text \<open>The body of the \<^verbatim>\<open>except\<close> clause, for attempt \<open>i\<close> and exception \<open>e\<close>.\<close>

definition on_failure :: "('h, 'r) world \<Rightarrow> nat \<Rightarrow> error \<Rightarrow> retry_state \<Rightarrow> retry_state" where
  "on_failure w i e st =
     (let retry_timing = (if i = FILE_READING_RETRY - 1 then None else Some (min_interval st));
          log_only_show_in_1st_retry = (i = 0);
          st1 = st\<lparr>logged := logged st @ [AttemptFailed (i + 1) retry_timing log_only_show_in_1st_retry]\<rparr>;
          st2 = (if min_interval st1 = 0
                 then st1\<lparr>min_interval := 1 + random_random w (random_calls st1),
                          random_calls := Suc (random_calls st1)\<rparr>
                 else st1);
          st3 = st2\<lparr>slept := slept st2 @ [min_interval st2]\<rparr>
      in st3\<lparr>min_interval := min_interval st3 * 2, final_exception := Some e\<rparr>)"

function deserialize_loop ::
    "('h, 'r) world \<Rightarrow> 'h list \<Rightarrow> nat \<Rightarrow> retry_state \<Rightarrow> (error + 'r list) \<times> retry_state" where
  "deserialize_loop w serialized_fragments i st =
     (if i < FILE_READING_RETRY then
        (case deserialize_fragments w i serialized_fragments of
           Inr fragments \<Rightarrow> (Inr fragments, st\<lparr>attempts := Suc (attempts st)\<rparr>)
         | Inl e \<Rightarrow>
             deserialize_loop w serialized_fragments (Suc i)
               (on_failure w i e (st\<lparr>attempts := Suc (attempts st)\<rparr>)))
      else
        (case final_exception st of
           Some e \<Rightarrow> (Inl e, st)
         | None \<Rightarrow> (Inl TypeError, st)))"
  by pat_completeness auto
termination
  by (relation "measure (\<lambda>(w, sf, i, st). FILE_READING_RETRY - i)") auto

definition deserialize_fragments_with_retry ::
    "('h, 'r) world \<Rightarrow> 'h list \<Rightarrow> (error + 'r list) \<times> retry_state" where
  "deserialize_fragments_with_retry w serialized_fragments =
     deserialize_loop w serialized_fragments 0 retry_state0"

subsection \<open>Sampling one file\<close>

text \<open>
  What the module reads of a live Parquet fragment. \<open>frag_metadata\<close> is the metadata
  of the whole file (pyarrow keeps it for a row-group subset of the fragment), and
  \<open>frag_to_batches f n\<close> are the batches that the subset of the first row group yields for
  the batch size \<open>n\<close>.
\<close>

record row_group_metadata =
  rg_total_byte_size :: int

record parquet_file_metadata =
  md_num_rows :: int
  md_row_groups :: "row_group_metadata list"

record record_batch =
  nbytes :: int
  batch_num_rows :: int

record live_fragment =
  frag_path :: string
  frag_metadata :: parquet_file_metadata
  frag_to_batches :: "int \<Rightarrow> record_batch list"

definition int_truediv :: "int \<Rightarrow> int \<Rightarrow> error + real" where
  "int_truediv a b = py_truediv (real_of_int a) (real_of_int b)"

definition sample_live_fragment :: "live_fragment \<Rightarrow> error + sample_info" where
  "sample_live_fragment fragment =
     (let batch_size =
            max (min (md_num_rows (frag_metadata fragment)) PARQUET_ENCODING_RATIO_ESTIMATE_NUM_ROWS) 1
      in case frag_to_batches fragment batch_size of
           [] \<Rightarrow> Inr \<lparr>actual_bytes_per_row = None, estimated_bytes_per_row = None\<rparr>
         | batch # _ \<Rightarrow>
             if batch_num_rows batch > 0 then
               (let metadata = frag_metadata fragment;
                    total_size =
                      foldl (\<lambda>total_size rg. total_size + rg_total_byte_size rg) 0
                        (md_row_groups metadata)
                in case int_truediv (nbytes batch) (batch_num_rows batch) of
                     Inl e \<Rightarrow> Inl e
                   | Inr actual \<Rightarrow>
                       (case int_truediv total_size (md_num_rows metadata) of
                          Inl e \<Rightarrow> Inl e
                        | Inr estimated \<Rightarrow>
                            Inr \<lparr>actual_bytes_per_row = Some actual,
                                 estimated_bytes_per_row = Some estimated\<rparr>))
             else Inr \<lparr>actual_bytes_per_row = None, estimated_bytes_per_row = None\<rparr>)"

definition sample_fragment :: "('h, live_fragment) world \<Rightarrow> 'h \<Rightarrow> error + sample_info" where
  "sample_fragment w file_fragment =
     (case fst (deserialize_fragments_with_retry w [file_fragment]) of
        Inl e \<Rightarrow> Inl e
      | Inr fragments \<Rightarrow>
          (case py_getitem fragments 0 of
             Inl e \<Rightarrow> Inl e
           | Inr fragment \<Rightarrow> sample_live_fragment fragment))"

text \<open>The sampling tasks run remotely; an exception of any of them ends the construction.\<close>

definition sample_fragments :: "('h, live_fragment) world \<Rightarrow> 'h list \<Rightarrow> error + sample_info list" where
  "sample_fragments w pq_fragments =
     (case file_samples pq_fragments of
        Inl e \<Rightarrow> Inl e
      | Inr samples \<Rightarrow> mapE (sample_fragment w) samples)"

subsection \<open>Splitting a sequence into sections\<close>

text \<open>
  \<^verbatim>\<open>np.array_split(ary, n)\<close> on a one-dimensional sequence, as numpy computes it: the
  first \<open>len mod n\<close> sections get one element more than the others, the division points
  are the running sums of the section sizes, and section \<open>i\<close> is the slice between
  division points \<open>i\<close> and \<open>i + 1\<close>. A number of sections below one raises.
\<close>

definition section_sizes :: "nat \<Rightarrow> nat \<Rightarrow> nat list" where
  "section_sizes Ntotal Nsections =
     (let Neach_section = Ntotal div Nsections; extras = Ntotal mod Nsections
      in 0 # replicate extras (Neach_section + 1) @ replicate (Nsections - extras) Neach_section)"

fun cumsum_from :: "nat \<Rightarrow> nat list \<Rightarrow> nat list" where
  "cumsum_from acc [] = []"
| "cumsum_from acc (x # xs) = (acc + x) # cumsum_from (acc + x) xs"

definition cumsum :: "nat list \<Rightarrow> nat list" where
  "cumsum xs = cumsum_from 0 xs"

definition slice :: "'a list \<Rightarrow> nat \<Rightarrow> nat \<Rightarrow> 'a list" where
  "slice xs st en = take (en - st) (drop st xs)"

definition array_split :: "'a list \<Rightarrow> int \<Rightarrow> error + 'a list list" where
  "array_split ary indices_or_sections =
     (if indices_or_sections \<le> 0 then Inl ValueError
      else
        (let Nsections = nat indices_or_sections;
             div_points = cumsum (section_sizes (length ary) Nsections)
         in Inr (map (\<lambda>i. slice ary (div_points ! i) (div_points ! (i + 1))) [0..<Nsections])))"

subsection \<open>The datasource\<close>

text \<open>
  The metadata of one file as the provider prefetches it; the module reads its byte size.
\<close>

record fragment_metadata =
  total_byte_size :: int

text \<open>
  List objects live in a store and are named by their index in it, so that two names of
  one list see each other's in-place updates. The store holds the lists of prefetched
  metadata, whose entries are absent where nothing was prefetched.
\<close>

type_synonym store = "fragment_metadata option list list"

definition deref :: "store \<Rightarrow> nat \<Rightarrow> fragment_metadata option list" where
  "deref st r = (if r < length st then st ! r else [])"

definition alloc :: "store \<Rightarrow> fragment_metadata option list \<Rightarrow> nat \<times> store" where
  "alloc st xs = (length st, st @ [xs])"

text \<open>The planning estimate that the metadata provider returns for one group of files.\<close>

record block_metadata =
  bm_num_rows :: "int option"
  bm_size_bytes :: "int option"

text \<open>
  The provider's two entry points: the estimate for a group (paths, schema, number of
  fragments, prefetched metadata) and the prefetch, which returns a list, returns nothing,
  or raises; \<open>prefetch_file_metadata p k fragments\<close> is what its \<open>k\<close>-th call (from 0)
  does.
\<close>

datatype prefetch_result = Prefetched "fragment_metadata list option" | PrefetchRaises error

record ('r, 's) meta_provider =
  get_block_metadata :: "string list \<Rightarrow> 's \<Rightarrow> nat \<Rightarrow> fragment_metadata option list \<Rightarrow> block_metadata"
  prefetch_file_metadata :: "nat \<Rightarrow> 'r list \<Rightarrow> prefetch_result"

record ('h, 'r, 's) datasource =
  metadata_ref :: nat
  pq_fragments :: "'h list"
  pq_paths :: "string list"
  the_meta_provider :: "('r, 's) meta_provider"
  inferred_schema :: 's
  schema :: 's
  has_filter :: bool
  file_metadata_shuffler :: "rng option"
  encoding_ratio :: pyfloat
  default_read_batch_size_rows :: pyfloat

text \<open>A read task: the handles it will read and its planning estimate.\<close>

record 'h read_task =
  task_fragments :: "'h list"
  task_metadata :: block_metadata

subsection \<open>The size estimate\<close>

fun sum_total_byte_size :: "int \<Rightarrow> fragment_metadata option list \<Rightarrow> error + int" where
  "sum_total_byte_size total_size [] = Inr total_size"
| "sum_total_byte_size total_size (None # ms) = Inl AttributeError"
| "sum_total_byte_size total_size (Some file_metadata # ms) =
     sum_total_byte_size (total_size + total_byte_size file_metadata) ms"

text \<open>The declared result is an optional number; every return of the body is a number.\<close>

definition estimate_inmemory_data_size ::
    "store \<Rightarrow> ('h, 'r, 's) datasource \<Rightarrow> error + pyfloat option" where
  "estimate_inmemory_data_size st self =
     (case sum_total_byte_size 0 (deref st (metadata_ref self)) of
        Inl e \<Rightarrow> Inl e
      | Inr total_size \<Rightarrow> Inr (Some (py_scale total_size (encoding_ratio self))))"

subsection \<open>Planning the read tasks\<close>

text \<open>
  The three sequences are split alike and the sections are walked together; a section
  without fragments is skipped.
\<close>

definition read_task_groups ::
    "'h list \<Rightarrow> string list \<Rightarrow> fragment_metadata option list \<Rightarrow> int \<Rightarrow>
     error + ('h list \<times> string list \<times> fragment_metadata option list) list" where
  "read_task_groups all_fragments all_paths all_metadata parallelism =
     (case array_split all_fragments parallelism of
        Inl e \<Rightarrow> Inl e
      | Inr fs \<Rightarrow>
          (case array_split all_paths parallelism of
             Inl e \<Rightarrow> Inl e
           | Inr ps \<Rightarrow>
               (case array_split all_metadata parallelism of
                  Inl e \<Rightarrow> Inl e
                | Inr ms \<Rightarrow>
                    Inr (filter (\<lambda>(fragments, paths, metadata). \<not> length fragments \<le> 0)
                          (zip fs (zip ps ms))))))"

definition make_read_task ::
    "('h, 'r, 's) datasource \<Rightarrow> 'h list \<times> string list \<times> fragment_metadata option list \<Rightarrow>
     error + 'h read_task" where
  "make_read_task self chunk =
     (case chunk of (fragments, paths, metadata) \<Rightarrow>
        (let meta = get_block_metadata (the_meta_provider self) paths (inferred_schema self)
                      (length fragments) metadata;
             meta1 = (if has_filter self then meta\<lparr>bm_num_rows := None\<rparr> else meta)
         in case bm_size_bytes meta1 of
              None \<Rightarrow> Inr \<lparr>task_fragments = fragments, task_metadata = meta1\<rparr>
            | Some size_bytes \<Rightarrow>
                (case py_int (py_scale size_bytes (encoding_ratio self)) of
                   Inl e \<Rightarrow> Inl e
                 | Inr scaled \<Rightarrow>
                     Inr \<lparr>task_fragments = fragments,
                          task_metadata = meta1\<lparr>bm_size_bytes := Some scaled\<rparr>\<rparr>)))"

definition split_read_tasks ::
    "('h, 'r, 's) datasource \<Rightarrow> 'h list \<Rightarrow> string list \<Rightarrow> fragment_metadata option list \<Rightarrow> int \<Rightarrow>
     error + 'h read_task list" where
  "split_read_tasks self all_fragments all_paths all_metadata parallelism =
     (case read_task_groups all_fragments all_paths all_metadata parallelism of
        Inl e \<Rightarrow> Inl e
      | Inr groups \<Rightarrow> mapE (make_read_task self) groups)"

text \<open>
  \<^verbatim>\<open>pq_metadata = self._metadata\<close> gives the stored list a second name, and \<open>+=\<close> on a
  list extends the object in place: the padding is written to the store. Shuffling draws
  one permutation from the stored generator and binds new lists; unpacking the transposed
  triples into three names needs three of them, which an empty sequence does not give.
\<close>

definition pad_metadata :: "store \<Rightarrow> nat \<Rightarrow> nat \<Rightarrow> store" where
  "pad_metadata st r n =
     (let pq_metadata = deref st r
      in if length pq_metadata < n
         then st[r := pq_metadata @ replicate (n - length pq_metadata) None]
         else st)"

definition get_read_tasks ::
    "store \<Rightarrow> ('h, 'r, 's) datasource \<Rightarrow> int \<Rightarrow>
     (error + 'h read_task list) \<times> store \<times> ('h, 'r, 's) datasource" where
  "get_read_tasks st self parallelism =
     (let st1 = pad_metadata st (metadata_ref self) (length (pq_fragments self));
          pq_metadata = deref st1 (metadata_ref self)
      in case file_metadata_shuffler self of
           None \<Rightarrow>
             (split_read_tasks self (pq_fragments self) (pq_paths self) pq_metadata parallelism,
              st1, self)
         | Some g \<Rightarrow>
             (let files_metadata = zip (pq_fragments self) (zip (pq_paths self) pq_metadata);
                  (p, g1) = permutation g (length files_metadata);
                  self1 = self\<lparr>file_metadata_shuffler := Some g1\<rparr>
              in case mapE (py_getitem files_metadata) p of
                   Inl e \<Rightarrow> (Inl e, st1, self1)
                 | Inr shuffled_files_metadata \<Rightarrow>
                     if shuffled_files_metadata = [] then (Inl ValueError, st1, self1)
                     else
                       (split_read_tasks self1
                          (map fst shuffled_files_metadata)
                          (map (fst \<circ> snd) shuffled_files_metadata)
                          (map (snd \<circ> snd) shuffled_files_metadata) parallelism,
                        st1, self1)))"

subsection \<open>Construction, from the metadata prefetch on\<close>

text \<open>
  Ray's \<^verbatim>\<open>_handle_read_os_error\<close> always raises: the error it was given, or one with a
  clearer message; the model keeps the message.
\<close>

definition handle_read_os_error :: "string \<Rightarrow> error" where
  "handle_read_os_error msg = OSError msg"

text \<open>
  The prefetch is called once; \<^verbatim>\<open>ArrowInvalid\<close> about a file of 0 bytes becomes
  \<^verbatim>\<open>InvalidFile\<close>, any other exception but \<^verbatim>\<open>OSError\<close> passes.
\<close>

definition prefetch_metadata ::
    "('r, 's) meta_provider \<Rightarrow> 'r list \<Rightarrow> error + fragment_metadata option list" where
  "prefetch_metadata provider fragments =
     (case prefetch_file_metadata provider 0 fragments of
        Prefetched None \<Rightarrow> Inr []
      | Prefetched (Some ms) \<Rightarrow> Inr (map Some ms)
      | PrefetchRaises (OSError msg) \<Rightarrow> Inl (handle_read_os_error msg)
      | PrefetchRaises (ArrowInvalid msg) \<Rightarrow>
          if sublist ''Parquet file size is 0 bytes'' msg
          then Inl (InvalidFile (''Invalid Parquet file. '' @ msg))
          else Inl (ArrowInvalid msg)
      | PrefetchRaises e \<Rightarrow> Inl e)"

text \<open>
  What \<^verbatim>\<open>pq.ParquetDataset(paths, ...)\<close> does: it opens the dataset and gives its
  fragments, or raises.
\<close>

datatype dataset_result = Dataset "live_fragment list" | DatasetRaises error

text \<open>
  The constructor from the opening of the dataset to its end, given the schemas already
  inferred, whether a row filter is set and whether files are shuffled. Around the
  opening of the dataset only \<^verbatim>\<open>OSError\<close> is handled; any other exception
  leaves the constructor as it is.
\<close>

definition datasource_init ::
    "data_context \<Rightarrow> ('h, live_fragment) world \<Rightarrow> store \<Rightarrow> dataset_result \<Rightarrow>
     (live_fragment, 's) meta_provider \<Rightarrow> 's \<Rightarrow> 's \<Rightarrow> bool \<Rightarrow> bool \<Rightarrow>
     error + ('h, live_fragment, 's) datasource \<times> store" where
  "datasource_init ctx w st pq_ds provider inferred sch filtered shuffle_files =
     (case pq_ds of
        DatasetRaises (OSError msg) \<Rightarrow> Inl (handle_read_os_error msg)
      | DatasetRaises e \<Rightarrow> Inl e
      | Dataset fragments \<Rightarrow>
          (case prefetch_metadata provider fragments of
             Inl e \<Rightarrow> Inl e
           | Inr metadata \<Rightarrow>
               (let (r, st1) = alloc st metadata;
                    handles = map (serialize w) fragments
                in case sample_fragments w handles of
                     Inl e \<Rightarrow> Inl e
                   | Inr sample_infos \<Rightarrow>
                       (case estimate_files_encoding_ratio ctx sample_infos of
                          Inl e \<Rightarrow> Inl e
                        | Inr ratio \<Rightarrow>
                            (case estimate_default_read_batch_size_rows ctx sample_infos of
                               Inl e \<Rightarrow> Inl e
                             | Inr batch_rows \<Rightarrow>
                                 Inr (\<lparr>metadata_ref = r,
                                       pq_fragments = handles,
                                       pq_paths = map frag_path fragments,
                                       the_meta_provider = provider,
                                       inferred_schema = inferred,
                                       schema = sch,
                                       has_filter = filtered,
                                       file_metadata_shuffler =
                                         (if shuffle_files then Some (default_rng w) else None),
                                       encoding_ratio = ratio,
                                       default_read_batch_size_rows = batch_rows\<rparr>, st1))))))"

subsection \<open>Formulas of the specification\<close>

text \<open>The sample count as the specification words it, with rounding to the nearest integer.\<close>

definition spec_num_samples :: "nat \<Rightarrow> int" where
  "spec_num_samples num_files =
     max (min 2 (int num_files)) (min (min 10 (int num_files)) (round (real num_files * (1 / 100))))"

text \<open>
  Position \<open>i\<close> of the evenly spaced positions over \<open>[0, num_files - 1]\<close>, one per
  sample, rounded down to a file index.
\<close>

definition index_at :: "nat \<Rightarrow> nat \<Rightarrow> int" where
  "index_at num_files i =
     \<lfloor>real i * real_of_int (int num_files - 1) / real (nat (num_samples_of num_files) - 1)\<rfloor>"

text \<open>
  The ratio of one sample and the arithmetic mean, in the specification's words: the
  ratio is the actual size of a row over the estimated one where both are known, and the
  lower bound otherwise.
\<close>

definition sample_ratio :: "sample_info \<Rightarrow> real" where
  "sample_ratio s =
     (case (actual_bytes_per_row s, estimated_bytes_per_row s) of
        (Some a, Some e) \<Rightarrow> a / e
      | _ \<Rightarrow> 2)"

definition arithmetic_mean :: "real list \<Rightarrow> real" where
  "arithmetic_mean xs = sum_list xs / real (length xs)"

text \<open>
  The rows per batch that one sample asks for: the default where the actual size of a row
  is unknown, else the tenth part of the block size, rounded down, over the size of a
  row, rounded down and clamped.
\<close>

definition sample_batch_rows :: "data_context \<Rightarrow> sample_info \<Rightarrow> real" where
  "sample_batch_rows ctx s =
     (case actual_bytes_per_row s of
        None \<Rightarrow> 10000
      | Some a \<Rightarrow> max 1 (min 10000 (of_int \<lfloor>of_int (target_max_block_size ctx div 10) / a\<rfloor>)))"

text \<open>The same with the exact tenth part of the block size, as the specification writes it.\<close>

definition spec_batch_rows :: "data_context \<Rightarrow> real \<Rightarrow> real" where
  "spec_batch_rows ctx a =
     max 1 (min 10000 (of_int \<lfloor>(of_int (target_max_block_size ctx) / 10) / a\<rfloor>))"

subsection \<open>Descriptions of the retry loop\<close>

text \<open>
  The variables of the retry loop after \<open>m\<close> failed attempts: the interval was drawn once
  and doubled \<open>m\<close> times, and one message and one sleep were recorded per failure.
\<close>

definition failed_state :: "('h, 'r) world \<Rightarrow> 'h list \<Rightarrow> nat \<Rightarrow> retry_state" where
  "failed_state w sf m =
     \<lparr>min_interval = (if m = 0 then 0 else (1 + random_random w 0) * 2 ^ m),
      final_exception = (if m = 0 then None else Some (projl (deserialize_fragments w (m - 1) sf))),
      logged =
        map (\<lambda>i. AttemptFailed (i + 1)
                    (if i = FILE_READING_RETRY - 1 then None
                     else Some (if i = 0 then 0 else (1 + random_random w 0) * 2 ^ i))
                    (i = 0)) [0..<m],
      slept = map (\<lambda>i. (1 + random_random w 0) * 2 ^ i) [0..<m],
      random_calls = (if m = 0 then 0 else 1),
      attempts = m\<rparr>"

text \<open>The number of attempts that fail before the first success, at most all of them.\<close>

definition failures :: "('h, 'r) world \<Rightarrow> 'h list \<Rightarrow> nat" where
  "failures w sf =
     length (takeWhile (\<lambda>k. isl (deserialize_fragments w k sf)) [0..<FILE_READING_RETRY])"

subsection \<open>Descriptions of the sections\<close>

text \<open>Consecutive sections of the given lengths, cut from the front of a sequence.\<close>

fun chunks :: "nat list \<Rightarrow> 'a list \<Rightarrow> 'a list list" where
  "chunks [] xs = []"
| "chunks (n # ns) xs = take n xs # chunks ns (drop n xs)"

text \<open>
  The lengths of near-equal sections: the remainder of the division gives that many
  sections one element more.
\<close>

definition sizes_of :: "nat \<Rightarrow> nat \<Rightarrow> nat list" where
  "sizes_of Ntotal Nsections =
     replicate (Ntotal mod Nsections) (Ntotal div Nsections + 1)
     @ replicate (Nsections - Ntotal mod Nsections) (Ntotal div Nsections)"

text \<open>
  The near-equal split of a sequence into the given number of sections, without the
  sections that receive nothing.
\<close>

definition near_equal_groups :: "'a list \<Rightarrow> int \<Rightarrow> 'a list list" where
  "near_equal_groups xs n = filter (\<lambda>c. c \<noteq> []) (chunks (sizes_of (length xs) (nat n)) xs)"

text \<open>The bytes on disk of a file: the sum over its row groups.\<close>

definition file_total_size :: "parquet_file_metadata \<Rightarrow> int" where
  "file_total_size md = sum_list (map rg_total_byte_size (md_row_groups md))"

subsection \<open>Example inputs\<close>

text \<open>
  A provider that prefetches nothing and estimates the size of a group from the
  prefetched metadata when all of it is there, as Ray's provider does.
\<close>

definition plain_provider :: "('r, 's) meta_provider" where
  "plain_provider =
     \<lparr>get_block_metadata =
        (\<lambda>paths sch num_fragments prefetched.
           \<lparr>bm_num_rows = None,
            bm_size_bytes =
              (if length prefetched = num_fragments \<and> list_all (\<lambda>m. m \<noteq> None) prefetched
               then Some (sum_list (map (total_byte_size \<circ> the) prefetched))
               else None)\<rparr>),
      prefetch_file_metadata = (\<lambda>k fragments. Prefetched None)\<rparr>"


text \<open>
  A world in which resolution succeeds at once and the handles are the fragments
  themselves; its generator alternates between the identity and the reversal.
\<close>

definition reliable_world :: "(live_fragment, live_fragment) world" where
  "reliable_world =
     \<lparr>serialize = (\<lambda>fragment. fragment),
      deserialize_fragments = (\<lambda>k handles. Inr handles),
      random_random = (\<lambda>k. 1 / 2),
      default_rng =
        \<lparr>draws = (\<lambda>k n. if even k then map int [0..<n] else rev (map int [0..<n])),
         drawn = 0\<rparr>\<rparr>"

text \<open>
  A file of 1000 rows in one row group of 2048 bytes whose first batch has 2 rows in 6144
  bytes.
\<close>

definition data_file :: "string \<Rightarrow> live_fragment" where
  "data_file path =
     \<lparr>frag_path = path,
      frag_metadata = \<lparr>md_num_rows = 1000, md_row_groups = [\<lparr>rg_total_byte_size = 2048\<rparr>]\<rparr>,
      frag_to_batches = (\<lambda>batch_size. [\<lparr>nbytes = 6144, batch_num_rows = 2\<rparr>])\<rparr>"

text \<open>A datasource over one file for which no metadata was prefetched; store \<open>[[]]\<close>.\<close>

definition unprefetched_datasource :: "(string, live_fragment, string) datasource" where
  "unprefetched_datasource =
     \<lparr>metadata_ref = 0,
      pq_fragments = [''part-0''],
      pq_paths = [''bucket/part-0.parquet''],
      the_meta_provider = plain_provider,
      inferred_schema = ''schema'',
      schema = ''schema'',
      has_filter = False,
      file_metadata_shuffler = None,
      encoding_ratio = Finite 5,
      default_read_batch_size_rows = Finite 10000\<rparr>"

text \<open>
  What the constructor establishes and the planning relies on: the stored metadata is a
  list of the store, there is one path per fragment, and the encoding ratio is a number
  unless there is no fragment (the mean of no samples is not a number).
\<close>

definition valid_datasource :: "store \<Rightarrow> ('h, 'r, 's) datasource \<Rightarrow> bool" where
  "valid_datasource st self \<longleftrightarrow>
     metadata_ref self < length st
     \<and> length (pq_paths self) = length (pq_fragments self)
     \<and> (pq_fragments self = [] \<or> encoding_ratio self \<noteq> NaN)"

text \<open>
  A datasource over three files and one over seven, without shuffling, and the one over
  three files with the alternating generator; store \<open>[[]]\<close>.
\<close>

definition three_file_datasource :: "(string, live_fragment, string) datasource" where
  "three_file_datasource =
     unprefetched_datasource
       \<lparr>pq_fragments := [''part-0'', ''part-1'', ''part-2''],
        pq_paths := [''bucket/part-0.parquet'', ''bucket/part-1.parquet'',
                     ''bucket/part-2.parquet'']\<rparr>"


definition shuffled_datasource :: "(string, live_fragment, string) datasource" where
  "shuffled_datasource =
     three_file_datasource\<lparr>file_metadata_shuffler := Some (default_rng reliable_world)\<rparr>"



section \<open>Properties\<close>

subsection \<open>Helpers on lists and errors\<close>

lemma mapE_Inr_map:
  "(\<And>x. x \<in> set xs \<Longrightarrow> f x = Inr (g x)) \<Longrightarrow> mapE f xs = Inr (map g xs)"
  by (induction xs) simp_all

lemma py_getitem_in_range:
  "0 \<le> j \<Longrightarrow> j < int (length xs) \<Longrightarrow> py_getitem xs j = Inr (xs ! nat j)"
  by (simp add: py_getitem_def)

subsection \<open>The number of samples and the sampled files\<close>

lemma floor_ratio:
  "\<lfloor>real n * PARQUET_ENCODING_RATIO_ESTIMATE_SAMPLING_RATIO\<rfloor> = int (n div 100)"
proof -
  have "\<lfloor>real n / 100\<rfloor> = int (n div 100)" by linarith
  then show ?thesis by (simp add: PARQUET_ENCODING_RATIO_ESTIMATE_SAMPLING_RATIO_def)
qed

lemma num_samples_of_div:
  "num_samples_of n = max (min (int (n div 100)) (min 10 (int n))) (min 2 (int n))"
  by (simp add: num_samples_of_def floor_ratio
      PARQUET_ENCODING_RATIO_ESTIMATE_MIN_NUM_SAMPLES_def
      PARQUET_ENCODING_RATIO_ESTIMATE_MAX_NUM_SAMPLES_def Let_def)

lemma num_samples_of_bounds: "0 \<le> num_samples_of n" "num_samples_of n \<le> int n"
  by (simp_all add: num_samples_of_div)

lemma sample_indices_eq:
  "sample_indices n = map (index_at n) [0..<nat (num_samples_of n)]"
proof -
  define k where "k = nat (num_samples_of n)"
  define stop where "stop = real_of_int (int n - 1)"
  define F where
    "F = (\<lambda>i. if 1 < k \<and> i = k - 1 then stop else 0 + real i * ((stop - 0) / real (k - 1)))"
  have kn: "k \<le> n" using num_samples_of_bounds[of n] by (simp add: k_def)
  have eq: "astype_int (F i) = index_at n i" if "i < k" for i
  proof -
    from that kn have n1: "1 \<le> n" by simp
    then have nonneg: "0 \<le> stop" by (simp add: stop_def)
    show ?thesis
    proof (cases "1 < k \<and> i = k - 1")
      case True
      then have "real i * stop / real (k - 1) = stop" by simp
      then have "index_at n i = \<lfloor>stop\<rfloor>"
        by (simp only: index_at_def k_def[symmetric] stop_def[symmetric])
      moreover have "F i = stop"
        using True by (simp add: F_def)
      then have "astype_int (F i) = \<lfloor>stop\<rfloor>"
        using nonneg by (simp add: astype_int_def)
      ultimately show ?thesis by simp
    next
      case False
      have Fi: "F i = 0 + real i * ((stop - 0) / real (k - 1))"
        by (simp only: F_def False if_False)
      have "0 \<le> real i * (stop / real (k - 1))" using nonneg by simp
      then have "astype_int (F i) = \<lfloor>real i * stop / real (k - 1)\<rfloor>"
        by (simp add: Fi astype_int_def)
      then show ?thesis
        by (simp only: index_at_def k_def[symmetric] stop_def[symmetric])
    qed
  qed
  have "sample_indices n = map astype_int (map F [0..<k])"
    by (simp only: sample_indices_def np_linspace_def Let_def k_def[symmetric]
        stop_def[symmetric] F_def)
  also have "\<dots> = map (index_at n) [0..<k]"
    by (simp add: eq)
  finally show ?thesis by (simp only: k_def)
qed

lemma index_at_range:
  assumes "i < nat (num_samples_of n)"
  shows "0 \<le> index_at n i" and "index_at n i < int n"
proof -
  define k where "k = nat (num_samples_of n)"
  define stop where "stop = real_of_int (int n - 1)"
  define x where "x = real i * stop / real (k - 1)"
  have kn: "k \<le> n" using num_samples_of_bounds[of n] by (simp add: k_def)
  from assms have ik: "i < k" by (simp add: k_def)
  with kn have n1: "1 \<le> n" by simp
  have nonneg: "0 \<le> stop" using n1 by (simp add: stop_def)
  have ix: "index_at n i = \<lfloor>x\<rfloor>"
    by (simp only: index_at_def k_def[symmetric] stop_def[symmetric] x_def)
  have "x \<le> stop"
  proof (cases "k = 1")
    case True
    then show ?thesis using ik nonneg by (simp add: x_def)
  next
    case False
    with ik have k1: "0 < real (k - 1)" by simp
    have "real i \<le> real (k - 1)" using ik by simp
    then have "real i * stop \<le> real (k - 1) * stop"
      using nonneg by (rule mult_right_mono)
    then show ?thesis using k1 by (simp add: x_def divide_le_eq mult.commute)
  qed
  also have "stop < real_of_int (int n)" by (simp add: stop_def)
  finally have "\<lfloor>x\<rfloor> < int n" by (simp only: floor_less_iff)
  then show "index_at n i < int n" by (simp only: ix)
  have "0 \<le> x" using nonneg by (simp add: x_def)
  then have "0 \<le> \<lfloor>x\<rfloor>" by simp
  then show "0 \<le> index_at n i" by (simp only: ix)
qed

lemma file_samples_eq:
  "file_samples fs =
     Inr (map (\<lambda>i. fs ! nat (index_at (length fs) i)) [0..<nat (num_samples_of (length fs))])"
proof -
  have "mapE (py_getitem fs) (map (index_at (length fs)) [0..<nat (num_samples_of (length fs))])
      = Inr (map (\<lambda>j. fs ! nat j)
               (map (index_at (length fs)) [0..<nat (num_samples_of (length fs))]))"
  proof (rule mapE_Inr_map)
    fix j assume "j \<in> set (map (index_at (length fs)) [0..<nat (num_samples_of (length fs))])"
    then obtain i where "i < nat (num_samples_of (length fs))" "j = index_at (length fs) i"
      by auto
    then show "py_getitem fs j = Inr (fs ! nat j)"
      using index_at_range[of i "length fs"] by (simp add: py_getitem_in_range)
  qed
  then show ?thesis by (simp add: file_samples_def sample_indices_eq comp_def)
qed

text \<open>
  Claim C6, as the code has it: the number of sampled files is the hundredth part of the
  number of files rounded down (not to the nearest integer), clamped between
  \<open>min 2 num_files\<close> and \<open>min 10 num_files\<close>; it is 10 for 1000 files; and the sampled
  files are those at the evenly spaced positions \<open>\<lfloor>i * (num_files - 1) / (samples - 1)\<rfloor>\<close>,
  a function of the number of files alone, each of them a valid index.
\<close>

theorem sample_count_and_positions:
  "num_samples_of n = max (min (int (n div 100)) (min 10 (int n))) (min 2 (int n))
   \<and> num_samples_of 1000 = 10
   \<and> sample_indices n = map (index_at n) [0..<nat (num_samples_of n)]
   \<and> file_samples fs =
       Inr (map (\<lambda>i. fs ! nat (index_at (length fs) i)) [0..<nat (num_samples_of (length fs))])"
proof (intro conjI)
  show "num_samples_of n = max (min (int (n div 100)) (min 10 (int n))) (min 2 (int n))"
    by (rule num_samples_of_div)
  show "num_samples_of 1000 = 10"
    by (simp add: num_samples_of_div)
  show "sample_indices n = map (index_at n) [0..<nat (num_samples_of n)]"
    by (rule sample_indices_eq)
  show "file_samples fs =
      Inr (map (\<lambda>i. fs ! nat (index_at (length fs) i)) [0..<nat (num_samples_of (length fs))])"
    by (rule file_samples_eq)
qed

text \<open>
  The count that rounds to the nearest integer differs from the code's: for 260 files the
  code samples 2 files, the rounded formula gives 3.
\<close>

theorem sample_count_rounding_counterexample:
  "num_samples_of 260 = 2 \<and> spec_num_samples 260 = 3 \<and> num_samples_of 260 \<noteq> spec_num_samples 260"
  by (simp add: num_samples_of_div spec_num_samples_def round_def)

subsection \<open>The estimates from the samples\<close>

lemma sum_list_between:
  fixes xs :: "real list"
  assumes "\<And>x. x \<in> set xs \<Longrightarrow> a \<le> x \<and> x \<le> b"
  shows "a * real (length xs) \<le> sum_list xs \<and> sum_list xs \<le> b * real (length xs)"
  using assms
proof (induction xs)
  case Nil
  then show ?case by simp
next
  case (Cons x xs)
  then have "a \<le> x" "x \<le> b"
    and "a * real (length xs) \<le> sum_list xs \<and> sum_list xs \<le> b * real (length xs)"
    by simp_all
  then show ?case by (simp add: algebra_simps)
qed

lemma mean_between:
  fixes xs :: "real list"
  assumes "xs \<noteq> []" and "\<And>x. x \<in> set xs \<Longrightarrow> a \<le> x \<and> x \<le> b"
  shows "a \<le> arithmetic_mean xs" and "arithmetic_mean xs \<le> b"
proof -
  have pos: "0 < real (length xs)" using assms(1) by simp
  have "a * real (length xs) \<le> sum_list xs \<and> sum_list xs \<le> b * real (length xs)"
    using assms(2) by (rule sum_list_between)
  then show "a \<le> arithmetic_mean xs" and "arithmetic_mean xs \<le> b"
    using pos by (simp_all add: arithmetic_mean_def le_divide_eq divide_le_eq)
qed

lemma np_mean_nonempty: "xs \<noteq> [] \<Longrightarrow> np_mean xs = Finite (arithmetic_mean xs)"
  by (simp add: np_mean_def arithmetic_mean_def)

lemma compute_encoding_ratio_ok:
  "(actual_bytes_per_row s \<noteq> None \<longrightarrow> estimated_bytes_per_row s \<noteq> Some 0)
   \<Longrightarrow> compute_encoding_ratio s = Inr (sample_ratio s)"
  by (auto simp: compute_encoding_ratio_def sample_ratio_def py_truediv_def
      PARQUET_ENCODING_RATIO_ESTIMATE_LOWER_BOUND_def split: option.splits)

lemma compute_batch_size_rows_ok:
  "actual_bytes_per_row s \<noteq> Some 0
   \<Longrightarrow> compute_batch_size_rows ctx s = Inr (sample_batch_rows ctx s)"
  by (auto simp: compute_batch_size_rows_def sample_batch_rows_def py_floordiv_def
      PARQUET_READER_ROW_BATCH_SIZE_def Let_def split: option.splits)

lemma sample_batch_rows_range:
  "1 \<le> sample_batch_rows ctx s \<and> sample_batch_rows ctx s \<le> 10000"
  by (simp add: sample_batch_rows_def split: option.splits)

text \<open>
  Claim C1, as the code has it: for a nonempty list of samples in which no sample with
  both sizes known has an estimated size of zero, the ratio returned with size estimation
  enabled is the arithmetic mean of the ratios of the samples (actual over estimated
  where both are known, else 2) raised to at least 2; with size estimation disabled the
  result is 5 whatever the samples are.
\<close>

theorem encoding_ratio_estimate:
  assumes "samples \<noteq> []"
    and "\<forall>s\<in>set samples.
           actual_bytes_per_row s \<noteq> None \<longrightarrow> estimated_bytes_per_row s \<noteq> Some 0"
  shows "(decoding_size_estimation ctx \<longrightarrow>
            estimate_files_encoding_ratio ctx samples =
              Inr (Finite (max (arithmetic_mean (map sample_ratio samples)) 2))
            \<and> 2 \<le> max (arithmetic_mean (map sample_ratio samples)) 2)
         \<and> (\<not> decoding_size_estimation ctx' \<longrightarrow>
              estimate_files_encoding_ratio ctx' samples' = Inr (Finite 5))"
proof -
  have "mapE compute_encoding_ratio samples = Inr (map sample_ratio samples)"
    using assms(2) by (intro mapE_Inr_map compute_encoding_ratio_ok) blast
  moreover have "np_mean (map sample_ratio samples) =
      Finite (arithmetic_mean (map sample_ratio samples))"
    using assms(1) by (simp add: np_mean_nonempty)
  ultimately have "decoding_size_estimation ctx \<Longrightarrow>
      estimate_files_encoding_ratio ctx samples =
        Inr (Finite (max (arithmetic_mean (map sample_ratio samples)) 2))"
    by (simp add: estimate_files_encoding_ratio_def py_max_def max_def
        PARQUET_ENCODING_RATIO_ESTIMATE_LOWER_BOUND_def)
  moreover have "\<not> decoding_size_estimation ctx' \<Longrightarrow>
      estimate_files_encoding_ratio ctx' samples' = Inr (Finite 5)"
    by (simp add: estimate_files_encoding_ratio_def PARQUET_ENCODING_RATIO_ESTIMATE_DEFAULT_def)
  ultimately show ?thesis by simp
qed

text \<open>
  One sample of 6144 bytes in 2 rows against 2048 bytes for 1000 rows gives the ratio
  1500 with size estimation enabled and 5 with it disabled.
\<close>

theorem encoding_ratio_estimate_witness:
  "estimate_files_encoding_ratio \<lparr>decoding_size_estimation = True, target_max_block_size = 134217728\<rparr>
     [\<lparr>actual_bytes_per_row = Some (6144 / 2), estimated_bytes_per_row = Some (2048 / 1000)\<rparr>]
     = Inr (Finite 1500)
   \<and> estimate_files_encoding_ratio \<lparr>decoding_size_estimation = False, target_max_block_size = 134217728\<rparr>
       [\<lparr>actual_bytes_per_row = Some 1, estimated_bytes_per_row = Some 0\<rparr>]
     = Inr (Finite 5)"
  using encoding_ratio_estimate
    [of "[\<lparr>actual_bytes_per_row = Some (6144 / 2), estimated_bytes_per_row = Some (2048 / 1000)\<rparr>]"
        "\<lparr>decoding_size_estimation = True, target_max_block_size = 134217728\<rparr>"
        "\<lparr>decoding_size_estimation = False, target_max_block_size = 134217728\<rparr>"
        "[\<lparr>actual_bytes_per_row = Some 1, estimated_bytes_per_row = Some 0\<rparr>]"]
  by (simp add: sample_ratio_def arithmetic_mean_def)

text \<open>
  A sample whose estimated size of a row is zero: the division raises, and no ratio is
  returned for this nonempty list.
\<close>

theorem encoding_ratio_zero_estimate_counterexample:
  "estimate_files_encoding_ratio \<lparr>decoding_size_estimation = True, target_max_block_size = 134217728\<rparr>
     [\<lparr>actual_bytes_per_row = Some 1, estimated_bytes_per_row = Some 0\<rparr>]
   = Inl ZeroDivisionError"
  by (simp add: estimate_files_encoding_ratio_def compute_encoding_ratio_def py_truediv_def)

text \<open>
  Claim C7, as the code has it: for a nonempty list of samples none of which has an actual
  size of a row of zero, the batch size returned is the arithmetic mean of the rows each
  sample asks for (10000 where the actual size is unknown, else the rounded-down tenth of
  the block size over the actual size, rounded down and clamped to 1 and 10000); it lies
  between 1 and 10000, and is 10000 when no sample knows its actual size.
\<close>

theorem batch_rows_estimate:
  assumes "samples \<noteq> []"
    and "\<forall>s\<in>set samples. actual_bytes_per_row s \<noteq> Some 0"
  shows "estimate_default_read_batch_size_rows ctx samples =
           Inr (Finite (arithmetic_mean (map (sample_batch_rows ctx) samples)))
         \<and> 1 \<le> arithmetic_mean (map (sample_batch_rows ctx) samples)
         \<and> arithmetic_mean (map (sample_batch_rows ctx) samples) \<le> 10000
         \<and> ((\<forall>s\<in>set samples. actual_bytes_per_row s = None) \<longrightarrow>
              estimate_default_read_batch_size_rows ctx samples = Inr (Finite 10000))"
proof -
  let ?xs = "map (sample_batch_rows ctx) samples"
  have ne: "?xs \<noteq> []" using assms(1) by simp
  have m: "mapE (compute_batch_size_rows ctx) samples = Inr ?xs"
    using assms(2) by (intro mapE_Inr_map compute_batch_size_rows_ok) blast
  have r: "estimate_default_read_batch_size_rows ctx samples = Inr (Finite (arithmetic_mean ?xs))"
    using ne by (simp add: estimate_default_read_batch_size_rows_def m np_mean_nonempty)
  have range: "\<And>x. x \<in> set ?xs \<Longrightarrow> 1 \<le> x \<and> x \<le> 10000"
    using sample_batch_rows_range by auto
  have lo: "1 \<le> arithmetic_mean ?xs" using ne range by (rule mean_between(1))
  have hi: "arithmetic_mean ?xs \<le> 10000" using ne range by (rule mean_between(2))
  have "arithmetic_mean ?xs = 10000" if "\<forall>s\<in>set samples. actual_bytes_per_row s = None"
  proof -
    have "\<And>x. x \<in> set ?xs \<Longrightarrow> 10000 \<le> x \<and> x \<le> 10000"
      using that by (auto simp: sample_batch_rows_def)
    with ne have "10000 \<le> arithmetic_mean ?xs" by (rule mean_between(1))
    with hi show ?thesis by simp
  qed
  with r lo hi show ?thesis by simp
qed

text \<open>
  Two samples under a block size of 1 MiB: one without sizes asks for 10000 rows, one
  with 2048 bytes per row asks for 51 rows; the batch size is their mean.
\<close>

theorem batch_rows_estimate_witness:
  "estimate_default_read_batch_size_rows \<lparr>decoding_size_estimation = True, target_max_block_size = 1048576\<rparr>
     [\<lparr>actual_bytes_per_row = None, estimated_bytes_per_row = None\<rparr>,
      \<lparr>actual_bytes_per_row = Some 2048, estimated_bytes_per_row = Some 2\<rparr>]
     = Inr (Finite (10051 / 2))
   \<and> estimate_default_read_batch_size_rows \<lparr>decoding_size_estimation = True, target_max_block_size = 1048576\<rparr>
       [\<lparr>actual_bytes_per_row = None, estimated_bytes_per_row = None\<rparr>]
     = Inr (Finite 10000)"
  using batch_rows_estimate
    [of "[\<lparr>actual_bytes_per_row = None, estimated_bytes_per_row = None\<rparr>,
          \<lparr>actual_bytes_per_row = Some 2048, estimated_bytes_per_row = Some 2\<rparr>]"
        "\<lparr>decoding_size_estimation = True, target_max_block_size = 1048576\<rparr>"]
    batch_rows_estimate
    [of "[\<lparr>actual_bytes_per_row = None, estimated_bytes_per_row = None\<rparr>]"
        "\<lparr>decoding_size_estimation = True, target_max_block_size = 1048576\<rparr>"]
  by (simp add: sample_batch_rows_def arithmetic_mean_def)

text \<open>
  A sample whose actual size of a row is zero: the floor division raises and no batch
  size is returned. And with a block size of 39 and rows of 1.3 bytes the code asks for
  \<open>\<lfloor>3 / 1.3\<rfloor> = 2\<close> rows, where the exact tenth of the block size gives
  \<open>\<lfloor>3.9 / 1.3\<rfloor> = 3\<close>.
\<close>

theorem batch_rows_counterexample:
  "estimate_default_read_batch_size_rows \<lparr>decoding_size_estimation = True, target_max_block_size = 134217728\<rparr>
     [\<lparr>actual_bytes_per_row = Some 0, estimated_bytes_per_row = Some 1\<rparr>]
     = Inl ZeroDivisionError
   \<and> compute_batch_size_rows \<lparr>decoding_size_estimation = True, target_max_block_size = 39\<rparr>
       \<lparr>actual_bytes_per_row = Some (13 / 10), estimated_bytes_per_row = Some 1\<rparr> = Inr 2
   \<and> spec_batch_rows \<lparr>decoding_size_estimation = True, target_max_block_size = 39\<rparr> (13 / 10) = 3"
  by (simp add: estimate_default_read_batch_size_rows_def compute_batch_size_rows_def
      py_floordiv_def spec_batch_rows_def PARQUET_READER_ROW_BATCH_SIZE_def)

subsection \<open>Retried resolution\<close>

lemma on_failure_step:
  assumes "1 + random_random w 0 \<noteq> 0" and "deserialize_fragments w m sf = Inl e"
  shows "on_failure w m e ((failed_state w sf m)\<lparr>attempts := Suc m\<rparr>) = failed_state w sf (Suc m)"
  using assms by (simp add: on_failure_def failed_state_def Let_def)

lemma loop_failed:
  assumes r: "1 + random_random w 0 \<noteq> 0"
    and n8: "n \<le> FILE_READING_RETRY"
    and ok: "n < FILE_READING_RETRY \<longrightarrow> \<not> isl (deserialize_fragments w n sf)"
    and fails: "\<forall>k<n. isl (deserialize_fragments w k sf)"
  shows "i \<le> n \<Longrightarrow>
     deserialize_loop w sf i (failed_state w sf i) =
       (if n < FILE_READING_RETRY
        then (deserialize_fragments w n sf, (failed_state w sf n)\<lparr>attempts := Suc n\<rparr>)
        else (deserialize_fragments w (FILE_READING_RETRY - 1) sf, failed_state w sf FILE_READING_RETRY))"
proof (induction "n - i" arbitrary: i)
  case 0
  then have in': "i = n" by simp
  show ?case
  proof (cases "n < FILE_READING_RETRY")
    case True
    with ok obtain v where v: "deserialize_fragments w n sf = Inr v"
      by (cases "deserialize_fragments w n sf") auto
    show ?thesis
      using True v by (subst deserialize_loop.simps) (simp add: in' failed_state_def)
  next
    case False
    with n8 have n: "n = FILE_READING_RETRY" by simp
    have "isl (deserialize_fragments w (FILE_READING_RETRY - 1) sf)"
      using fails n by (simp add: FILE_READING_RETRY_def)
    then obtain e where e: "deserialize_fragments w (FILE_READING_RETRY - 1) sf = Inl e"
      by (cases "deserialize_fragments w (FILE_READING_RETRY - 1) sf") auto
    have fe: "final_exception (failed_state w sf FILE_READING_RETRY) = Some e"
      using e by (simp add: failed_state_def FILE_READING_RETRY_def)
    show ?thesis
      using n e fe by (subst deserialize_loop.simps) (simp add: in')
  qed
next
  case (Suc d)
  then have lt: "i < n" by simp
  with fails have "isl (deserialize_fragments w i sf)" by simp
  then obtain e where e: "deserialize_fragments w i sf = Inl e"
    by (cases "deserialize_fragments w i sf") auto
  have i8: "i < FILE_READING_RETRY" using lt n8 by simp
  have "deserialize_loop w sf i (failed_state w sf i) =
        deserialize_loop w sf (Suc i) (on_failure w i e ((failed_state w sf i)\<lparr>attempts := Suc i\<rparr>))"
    using i8 e by (subst deserialize_loop.simps) (simp add: failed_state_def)
  also have "\<dots> = deserialize_loop w sf (Suc i) (failed_state w sf (Suc i))"
    by (simp only: on_failure_step[OF r e])
  also have "\<dots> = (if n < FILE_READING_RETRY
        then (deserialize_fragments w n sf, (failed_state w sf n)\<lparr>attempts := Suc n\<rparr>)
        else (deserialize_fragments w (FILE_READING_RETRY - 1) sf, failed_state w sf FILE_READING_RETRY))"
    using Suc.hyps(2) lt by (intro Suc.hyps(1)) auto
  finally show ?case .
qed


lemma retry_state0_failed: "retry_state0 = failed_state w sf 0"
  by (simp add: retry_state0_def failed_state_def)

lemma failures_le: "failures w sf \<le> FILE_READING_RETRY"
proof -
  have "failures w sf \<le> length [0..<FILE_READING_RETRY]"
    unfolding failures_def by (rule length_takeWhile_le)
  then show ?thesis by simp
qed

lemma failures_fail: "k < failures w sf \<Longrightarrow> isl (deserialize_fragments w k sf)"
proof -
  assume k: "k < failures w sf"
  let ?P = "\<lambda>k. isl (deserialize_fragments w k sf)"
  let ?xs = "[0..<FILE_READING_RETRY]"
  have "takeWhile ?P ?xs ! k \<in> set (takeWhile ?P ?xs)"
    using k by (simp add: failures_def)
  then have "?P (takeWhile ?P ?xs ! k)" by (rule set_takeWhileD[THEN conjunct2])
  moreover have "takeWhile ?P ?xs ! k = ?xs ! k"
    using k by (simp add: failures_def takeWhile_nth)
  moreover have "k < FILE_READING_RETRY" using k failures_le[of w sf] by simp
  ultimately show ?thesis by simp
qed

lemma failures_stop:
  "failures w sf < FILE_READING_RETRY \<Longrightarrow> \<not> isl (deserialize_fragments w (failures w sf) sf)"
proof -
  assume lt: "failures w sf < FILE_READING_RETRY"
  let ?P = "\<lambda>k. isl (deserialize_fragments w k sf)"
  let ?xs = "[0..<FILE_READING_RETRY]"
  have "length (takeWhile ?P ?xs) < length ?xs" using lt by (simp add: failures_def)
  then have "\<not> ?P (?xs ! length (takeWhile ?P ?xs))" by (rule nth_length_takeWhile)
  then show ?thesis using lt by (simp add: failures_def)
qed

lemma retry_result:
  assumes "1 + random_random w 0 \<noteq> 0"
  shows "deserialize_fragments_with_retry w sf =
       (if failures w sf < FILE_READING_RETRY
        then (deserialize_fragments w (failures w sf) sf,
              (failed_state w sf (failures w sf))\<lparr>attempts := Suc (failures w sf)\<rparr>)
        else (deserialize_fragments w (FILE_READING_RETRY - 1) sf,
              failed_state w sf FILE_READING_RETRY))"
  unfolding deserialize_fragments_with_retry_def retry_state0_failed[of w sf]
  using assms failures_le failures_stop failures_fail
  by (intro loop_failed) auto

lemma failures_eqI:
  assumes "n \<le> FILE_READING_RETRY" and "\<forall>k<n. isl (deserialize_fragments w k sf)"
    and "n < FILE_READING_RETRY \<longrightarrow> \<not> isl (deserialize_fragments w n sf)"
  shows "failures w sf = n"
proof (rule ccontr)
  assume ne: "failures w sf \<noteq> n"
  show False
  proof (cases "failures w sf < n")
    case True
    then have "failures w sf < FILE_READING_RETRY" using assms(1) by simp
    then have "\<not> isl (deserialize_fragments w (failures w sf) sf)" by (rule failures_stop)
    with assms(2) True show False by simp
  next
    case False
    with ne have lt: "n < failures w sf" by simp
    then have "isl (deserialize_fragments w n sf)" by (rule failures_fail)
    moreover have "n < FILE_READING_RETRY" using lt failures_le[of w sf] by simp
    ultimately show False using assms(3) by simp
  qed
qed


text \<open>
  Claim C2: with a random source in \<open>[0, 1)\<close>, the retried resolution calls the resolver
  at most 8 times. If the first 7 calls fail and the 8th succeeds, its result is returned
  after 7 logged failures; if all 8 calls fail, the outcome of the 8th call, its error, is
  the result, after 8 attempts. The sleep after the \<open>i\<close>-th failure (from 0) is
  \<open>(1 + random) * 2 ^ i\<close> for the one random number drawn at the first failure: the
  random source is called at most once.
\<close>

theorem retry_policy:
  assumes "0 \<le> random_random w 0" and "random_random w 0 < 1"
  shows "attempts (snd (deserialize_fragments_with_retry w sf)) \<le> 8
    \<and> ((\<forall>k<7. isl (deserialize_fragments w k sf)) \<and> deserialize_fragments w 7 sf = Inr v \<longrightarrow>
         fst (deserialize_fragments_with_retry w sf) = Inr v
         \<and> length (logged (snd (deserialize_fragments_with_retry w sf))) = 7
         \<and> attempts (snd (deserialize_fragments_with_retry w sf)) = 8)
    \<and> ((\<forall>k<8. isl (deserialize_fragments w k sf)) \<longrightarrow>
         fst (deserialize_fragments_with_retry w sf) = deserialize_fragments w 7 sf
         \<and> length (logged (snd (deserialize_fragments_with_retry w sf))) = 8
         \<and> attempts (snd (deserialize_fragments_with_retry w sf)) = 8)
    \<and> slept (snd (deserialize_fragments_with_retry w sf)) =
         map (\<lambda>i. (1 + random_random w 0) * 2 ^ i)
           [0..<length (logged (snd (deserialize_fragments_with_retry w sf)))]
    \<and> random_calls (snd (deserialize_fragments_with_retry w sf)) \<le> 1"
proof -
  have r: "1 + random_random w 0 \<noteq> 0" using assms(1) by simp
  note res = retry_result[OF r, of sf]
  have le: "failures w sf \<le> 8" using failures_le[of w sf] by (simp add: FILE_READING_RETRY_def)
  have a: "attempts (snd (deserialize_fragments_with_retry w sf)) \<le> 8"
    using le by (simp add: res failed_state_def FILE_READING_RETRY_def)
  have s: "slept (snd (deserialize_fragments_with_retry w sf)) =
         map (\<lambda>i. (1 + random_random w 0) * 2 ^ i)
           [0..<length (logged (snd (deserialize_fragments_with_retry w sf)))]"
    by (simp add: res failed_state_def)
  have c: "random_calls (snd (deserialize_fragments_with_retry w sf)) \<le> 1"
    by (simp add: res failed_state_def)
  have seven: "fst (deserialize_fragments_with_retry w sf) = Inr v
         \<and> length (logged (snd (deserialize_fragments_with_retry w sf))) = 7
         \<and> attempts (snd (deserialize_fragments_with_retry w sf)) = 8"
    if "\<forall>k<7. isl (deserialize_fragments w k sf)" and "deserialize_fragments w 7 sf = Inr v"
  proof -
    have "failures w sf = 7"
      using that by (intro failures_eqI) (simp_all add: FILE_READING_RETRY_def)
    then show ?thesis
      using that(2) by (simp add: res failed_state_def FILE_READING_RETRY_def)
  qed
  have eight: "fst (deserialize_fragments_with_retry w sf) = deserialize_fragments w 7 sf
         \<and> length (logged (snd (deserialize_fragments_with_retry w sf))) = 8
         \<and> attempts (snd (deserialize_fragments_with_retry w sf)) = 8"
    if "\<forall>k<8. isl (deserialize_fragments w k sf)"
  proof -
    have "failures w sf = 8"
      using that by (intro failures_eqI) (simp_all add: FILE_READING_RETRY_def)
    then show ?thesis
      by (simp add: res failed_state_def FILE_READING_RETRY_def)
  qed
  from a s c seven eight show ?thesis by blast
qed

text \<open>
  A resolver that fails seven times and then succeeds, with the random number 1/2: the
  handles are resolved, seven failures are logged, and the sleeps double from 3/2. And a
  resolver that always fails: the error of the eighth call is the result.
\<close>

theorem retry_policy_witness:
  "fst (deserialize_fragments_with_retry
      \<lparr>serialize = (\<lambda>r::nat. r),
       deserialize_fragments = (\<lambda>k hs. if k < 7 then Inl (Exception ''connection lost'') else Inr hs),
       random_random = (\<lambda>k. 1 / 2),
       default_rng = \<lparr>draws = (\<lambda>k n. []), drawn = 0\<rparr>\<rparr> [1, 2]) = Inr [1, 2]
   \<and> length (logged (snd (deserialize_fragments_with_retry
      \<lparr>serialize = (\<lambda>r::nat. r),
       deserialize_fragments = (\<lambda>k hs. if k < 7 then Inl (Exception ''connection lost'') else Inr hs),
       random_random = (\<lambda>k. 1 / 2),
       default_rng = \<lparr>draws = (\<lambda>k n. []), drawn = 0\<rparr>\<rparr> [1, 2]))) = 7
   \<and> slept (snd (deserialize_fragments_with_retry
      \<lparr>serialize = (\<lambda>r::nat. r),
       deserialize_fragments = (\<lambda>k hs. if k < 7 then Inl (Exception ''connection lost'') else Inr hs),
       random_random = (\<lambda>k. 1 / 2),
       default_rng = \<lparr>draws = (\<lambda>k n. []), drawn = 0\<rparr>\<rparr> [1, 2]))
     = [3 / 2, 3, 6, 12, 24, 48, 96]
   \<and> fst (deserialize_fragments_with_retry
      \<lparr>serialize = (\<lambda>r::nat. r),
       deserialize_fragments =
         (\<lambda>k hs. Inl (Exception (if k = 7 then ''eighth'' else ''earlier'')) :: error + nat list),
       random_random = (\<lambda>k. 1 / 2),
       default_rng = \<lparr>draws = (\<lambda>k n. []), drawn = 0\<rparr>\<rparr> [1, 2]) = Inl (Exception ''eighth'')
   \<and> attempts (snd (deserialize_fragments_with_retry
      \<lparr>serialize = (\<lambda>r::nat. r),
       deserialize_fragments =
         (\<lambda>k hs. Inl (Exception (if k = 7 then ''eighth'' else ''earlier'')) :: error + nat list),
       random_random = (\<lambda>k. 1 / 2),
       default_rng = \<lparr>draws = (\<lambda>k n. []), drawn = 0\<rparr>\<rparr> [1, 2])) = 8"
proof -
  let ?w = "\<lparr>serialize = (\<lambda>r::nat. r),
       deserialize_fragments = (\<lambda>k hs. if k < 7 then Inl (Exception ''connection lost'') else Inr hs),
       random_random = (\<lambda>k. 1 / 2),
       default_rng = \<lparr>draws = (\<lambda>k n. []), drawn = 0\<rparr>\<rparr>"
  let ?v = "\<lparr>serialize = (\<lambda>r::nat. r),
       deserialize_fragments =
         (\<lambda>k hs. Inl (Exception (if k = 7 then ''eighth'' else ''earlier'')) :: error + nat list),
       random_random = (\<lambda>k. 1 / 2),
       default_rng = \<lparr>draws = (\<lambda>k n. []), drawn = 0\<rparr>\<rparr>"
  let ?sf = "[1, 2] :: nat list"
  have lo: "0 \<le> random_random ?w 0" and hi: "random_random ?w 0 < 1" by simp_all
  have fails: "\<forall>k<7. isl (deserialize_fragments ?w k ?sf)" by simp
  have ok: "deserialize_fragments ?w 7 ?sf = Inr ?sf" by simp
  note policy = retry_policy[OF lo hi, of ?sf ?sf]
  from policy fails ok
  have res: "fst (deserialize_fragments_with_retry ?w ?sf) = Inr ?sf"
    and len: "length (logged (snd (deserialize_fragments_with_retry ?w ?sf))) = 7"
    by blast+
  from policy have "slept (snd (deserialize_fragments_with_retry ?w ?sf)) =
      map (\<lambda>i. (1 + random_random ?w 0) * 2 ^ i)
        [0..<length (logged (snd (deserialize_fragments_with_retry ?w ?sf)))]"
    by blast
  also have "\<dots> = map (\<lambda>i. (1 + random_random ?w 0) * 2 ^ i) [0..<7]"
    by (simp only: len)
  also have "[0..<7] = [0, 1, 2, 3, 4, 5, 6 :: nat]"
    by (simp add: upt_rec)
  finally have waits:
    "slept (snd (deserialize_fragments_with_retry ?w ?sf)) = [3 / 2, 3, 6, 12, 24, 48, 96]"
    by simp
  have lo': "0 \<le> random_random ?v 0" and hi': "random_random ?v 0 < 1" by simp_all
  have fails': "\<forall>k<8. isl (deserialize_fragments ?v k ?sf)" by simp
  note policy' = retry_policy[OF lo' hi', of ?sf ?sf]
  from policy' fails'
  have "fst (deserialize_fragments_with_retry ?v ?sf) = deserialize_fragments ?v 7 ?sf"
    and all: "attempts (snd (deserialize_fragments_with_retry ?v ?sf)) = 8"
    by blast+
  then have last: "fst (deserialize_fragments_with_retry ?v ?sf) = Inl (Exception ''eighth'')"
    by simp
  from res len waits last all show ?thesis by (intro conjI)
qed

subsection \<open>Splitting into read tasks\<close>

lemma length_chunks: "length (chunks ns xs) = length ns"
  by (induction ns arbitrary: xs) simp_all

lemma concat_chunks: "concat (chunks ns xs) = take (sum_list ns) xs"
proof (induction ns arbitrary: xs)
  case Nil
  then show ?case by simp
next
  case (Cons n ns)
  have "take n xs @ take (sum_list ns) (drop n xs) = take (n + sum_list ns) xs"
    by (simp add: take_add)
  with Cons show ?case by simp
qed

lemma chunks_nth:
  "i < length ns \<Longrightarrow> chunks ns xs ! i = take (ns ! i) (drop (sum_list (take i ns)) xs)"
proof (induction ns arbitrary: xs i)
  case Nil
  then show ?case by simp
next
  case (Cons n ns)
  show ?case
  proof (cases i)
    case 0
    then show ?thesis by simp
  next
    case (Suc j)
    with Cons.prems have "j < length ns" by simp
    then have "chunks ns (drop n xs) ! j = take (ns ! j) (drop (sum_list (take j ns)) (drop n xs))"
      by (rule Cons.IH)
    then show ?thesis using Suc by (simp add: add.commute)
  qed
qed

lemma length_chunks_nth:
  "i < length ns \<Longrightarrow> sum_list ns \<le> length xs \<Longrightarrow> length (chunks ns xs ! i) = ns ! i"
proof (induction ns arbitrary: xs i)
  case Nil
  then show ?case by simp
next
  case (Cons n ns)
  show ?case
  proof (cases i)
    case 0
    with Cons.prems show ?thesis by simp
  next
    case (Suc j)
    with Cons.prems have "j < length ns" "sum_list ns \<le> length (drop n xs)" by simp_all
    then have "length (chunks ns (drop n xs) ! j) = ns ! j" by (rule Cons.IH)
    then show ?thesis using Suc by simp
  qed
qed

lemma cumsum_from_length: "length (cumsum_from acc xs) = length xs"
  by (induction xs arbitrary: acc) simp_all

lemma cumsum_from_nth:
  "i < length xs \<Longrightarrow> cumsum_from acc xs ! i = acc + sum_list (take (Suc i) xs)"
proof (induction xs arbitrary: acc i)
  case Nil
  then show ?case by simp
next
  case (Cons x xs)
  show ?case
  proof (cases i)
    case 0
    then show ?thesis by simp
  next
    case (Suc j)
    with Cons.prems have "j < length xs" by simp
    then have "cumsum_from (acc + x) xs ! j = acc + x + sum_list (take (Suc j) xs)"
      by (rule Cons.IH)
    then show ?thesis using Suc by simp
  qed
qed

lemma section_sizes_eq: "section_sizes L N = 0 # sizes_of L N"
  by (simp add: section_sizes_def sizes_of_def Let_def)

lemma length_sizes_of: "0 < N \<Longrightarrow> length (sizes_of L N) = N"
  by (simp add: sizes_of_def)

lemma sum_list_sizes_of: "0 < N \<Longrightarrow> sum_list (sizes_of L N) = L"
proof -
  assume N: "0 < N"
  then have le: "L mod N \<le> N" by simp
  have "sum_list (sizes_of L N) = (L mod N) * (L div N + 1) + (N - L mod N) * (L div N)"
    by (simp add: sizes_of_def sum_list_replicate)
  also have "\<dots> = L mod N + (L mod N + (N - L mod N)) * (L div N)"
    by (simp add: algebra_simps)
  also have "\<dots> = L mod N + N * (L div N)" using le by simp
  also have "\<dots> = L" by simp
  finally show ?thesis .
qed


lemma array_split_chunks:
  assumes "1 \<le> n"
  shows "array_split xs n = Inr (chunks (sizes_of (length xs) (nat n)) xs)"
proof -
  define N where "N = nat n"
  define sz where "sz = sizes_of (length xs) N"
  define dp where "dp = cumsum (section_sizes (length xs) N)"
  have N: "0 < N" using assms by (simp add: N_def)
  have len: "length sz = N" using N by (simp add: sz_def length_sizes_of)
  have dp: "dp ! i = sum_list (take i sz)" if "i \<le> N" for i
  proof -
    have "dp ! i = cumsum_from 0 (0 # sz) ! i"
      by (simp only: dp_def cumsum_def section_sizes_eq sz_def)
    also have "\<dots> = 0 + sum_list (take (Suc i) (0 # sz))"
      using that len by (intro cumsum_from_nth) simp
    finally show ?thesis by simp
  qed
  have "map (\<lambda>i. slice xs (dp ! i) (dp ! (i + 1))) [0..<N] = chunks sz xs"
  proof (rule nth_equalityI)
    show "length (map (\<lambda>i. slice xs (dp ! i) (dp ! (i + 1))) [0..<N]) = length (chunks sz xs)"
      by (simp add: length_chunks len)
  next
    fix i assume "i < length (map (\<lambda>i. slice xs (dp ! i) (dp ! (i + 1))) [0..<N])"
    then have i: "i < N" by simp
    then have "dp ! (i + 1) = sum_list (take i sz) + sz ! i"
      using len by (simp add: dp take_Suc_conv_app_nth)
    then have "slice xs (dp ! i) (dp ! (i + 1)) = take (sz ! i) (drop (sum_list (take i sz)) xs)"
      using i by (simp add: slice_def dp)
    then show "map (\<lambda>i. slice xs (dp ! i) (dp ! (i + 1))) [0..<N] ! i = chunks sz xs ! i"
      using i len by (simp add: chunks_nth)
  qed
  then show ?thesis
    using assms by (simp add: array_split_def Let_def N_def[symmetric] dp_def[symmetric] sz_def)
qed


lemma map_length_chunks: "sum_list ns \<le> length xs \<Longrightarrow> map length (chunks ns xs) = ns"
proof (induction ns arbitrary: xs)
  case Nil
  then show ?case by simp
next
  case (Cons n ns)
  then have "sum_list ns \<le> length (drop n xs)" by simp
  then have "map length (chunks ns (drop n xs)) = ns" by (rule Cons.IH)
  with Cons.prems show ?case by simp
qed

lemma concat_filter_nonempty: "concat (filter (\<lambda>c. c \<noteq> []) cs) = concat cs"
  by (induction cs) simp_all

lemma array_split_facts:
  assumes "1 \<le> n" and "array_split xs n = Inr cs"
  shows "length cs = nat n" and "concat cs = xs"
    and "map length cs = sizes_of (length xs) (nat n)"
proof -
  have N: "0 < nat n" using assms(1) by simp
  have cs: "cs = chunks (sizes_of (length xs) (nat n)) xs"
    using assms array_split_chunks[of n xs] by simp
  show "length cs = nat n" using N by (simp add: cs length_chunks length_sizes_of)
  show "concat cs = xs" using N by (simp add: cs concat_chunks sum_list_sizes_of)
  show "map length cs = sizes_of (length xs) (nat n)"
    using N by (simp add: cs map_length_chunks sum_list_sizes_of)
qed

lemma read_task_groups_eq:
  assumes "1 \<le> n"
  shows "read_task_groups frags paths mds n =
     Inr (filter (\<lambda>g. fst g \<noteq> [])
           (zip (chunks (sizes_of (length frags) (nat n)) frags)
             (zip (chunks (sizes_of (length paths) (nat n)) paths)
                  (chunks (sizes_of (length mds) (nat n)) mds))))"
proof -
  have "(\<lambda>(fragments :: 'a list, paths :: string list, metadata :: fragment_metadata option list).
            \<not> length fragments \<le> 0) = (\<lambda>g. fst g \<noteq> [])"
    by (auto simp: fun_eq_iff)
  then show ?thesis
    using assms by (simp add: read_task_groups_def array_split_chunks)
qed

lemma map_fst_filter_zip:
  "length xs \<le> length ys \<Longrightarrow> map fst (filter (\<lambda>g. P (fst g)) (zip xs ys)) = filter P xs"
proof (induction xs arbitrary: ys)
  case Nil
  then show ?case by simp
next
  case (Cons x xs)
  then obtain y ys' where ys: "ys = y # ys'" by (cases ys) auto
  with Cons.prems have "length xs \<le> length ys'" by simp
  then have "map fst (filter (\<lambda>g. P (fst g)) (zip xs ys')) = filter P xs" by (rule Cons.IH)
  then show ?case by (simp add: ys)
qed



subsection \<open>The size estimate, the stored metadata and the samples\<close>

lemma sum_total_byte_size_present:
  "sum_total_byte_size acc (map Some ms) = Inr (acc + sum_list (map total_byte_size ms))"
  by (induction ms arbitrary: acc) simp_all

text \<open>
  Claim C8, as the code has it: when every stored entry of prefetched metadata is present,
  the estimate is the sum of their byte sizes times the encoding ratio; when no metadata
  was prefetched the sum is zero and the estimate is the number zero times the ratio. The
  function returns a number in both cases.
\<close>

theorem inmemory_data_size_estimate:
  "(deref st (metadata_ref self) = map Some ms \<longrightarrow>
      estimate_inmemory_data_size st self =
        Inr (Some (py_scale (sum_list (map total_byte_size ms)) (encoding_ratio self))))
   \<and> (deref st (metadata_ref self) = [] \<longrightarrow>
      estimate_inmemory_data_size st self = Inr (Some (py_scale 0 (encoding_ratio self))))"
  by (simp add: estimate_inmemory_data_size_def sum_total_byte_size_present)

text \<open>
  Two files of 2048 and 1024 bytes under the ratio 5 give 15360; no metadata gives 0.
\<close>

theorem inmemory_data_size_estimate_witness:
  "estimate_inmemory_data_size [[Some \<lparr>total_byte_size = 2048\<rparr>, Some \<lparr>total_byte_size = 1024\<rparr>]]
       unprefetched_datasource = Inr (Some (Finite 15360))
   \<and> estimate_inmemory_data_size [[]] unprefetched_datasource = Inr (Some (Finite 0))"
  using inmemory_data_size_estimate
      [of "[[Some \<lparr>total_byte_size = 2048\<rparr>, Some \<lparr>total_byte_size = 1024\<rparr>]]"
          unprefetched_datasource "[\<lparr>total_byte_size = 2048\<rparr>, \<lparr>total_byte_size = 1024\<rparr>]"]
    inmemory_data_size_estimate [of "[[]]" unprefetched_datasource "[]"]
  by (simp add: deref_def unprefetched_datasource_def py_scale_def)

text \<open>
  With no metadata prefetched for any file the estimate is the number 0, not an absent
  value.
\<close>

theorem inmemory_data_size_no_metadata_counterexample:
  "estimate_inmemory_data_size [[]] unprefetched_datasource = Inr (Some (Finite 0))
   \<and> estimate_inmemory_data_size [[]] unprefetched_datasource \<noteq> Inr None"
  by (simp add: estimate_inmemory_data_size_def deref_def unprefetched_datasource_def py_scale_def)

text \<open>
  Claim C10 fails on the code. For a datasource over one file with no prefetched metadata,
  the size estimate is 0 before planning; \<open>get_read_tasks\<close> pads the stored list of
  metadata in place, so the store holds \<open>[None]\<close> afterwards; and the size estimate
  then raises \<^verbatim>\<open>AttributeError\<close> on the padding.
\<close>

theorem get_read_tasks_pads_stored_metadata:
  "estimate_inmemory_data_size [[]] unprefetched_datasource = Inr (Some (Finite 0))
   \<and> get_read_tasks [[]] unprefetched_datasource 1 =
       (Inr [\<lparr>task_fragments = [''part-0''],
               task_metadata = \<lparr>bm_num_rows = None, bm_size_bytes = None\<rparr>\<rparr>],
        [[None]], unprefetched_datasource)
   \<and> deref [[None]] (metadata_ref unprefetched_datasource) \<noteq>
       deref [[]] (metadata_ref unprefetched_datasource)
   \<and> estimate_inmemory_data_size [[None]] unprefetched_datasource = Inl AttributeError"
  apply (intro conjI)
     apply (simp add: estimate_inmemory_data_size_def deref_def unprefetched_datasource_def py_scale_def)
    apply (simp add: get_read_tasks_def pad_metadata_def deref_def unprefetched_datasource_def
      split_read_tasks_def read_task_groups_def array_split_def section_sizes_def cumsum_def
      slice_def make_read_task_def plain_provider_def Let_def)
   apply (simp add: deref_def unprefetched_datasource_def)
  apply (simp add: estimate_inmemory_data_size_def deref_def unprefetched_datasource_def)
  done

lemma foldl_total_size:
  "foldl (\<lambda>total_size rg. total_size + rg_total_byte_size rg) acc rgs =
     acc + sum_list (map rg_total_byte_size rgs)"
  by (induction rgs arbitrary: acc) simp_all

lemma sample_live_fragment_nonempty:
  assumes "frag_to_batches fragment
             (max (min (md_num_rows (frag_metadata fragment)) 1024) 1) = batch # rest"
    and "0 < batch_num_rows batch"
  shows "sample_live_fragment fragment =
     (if md_num_rows (frag_metadata fragment) = 0 then Inl ZeroDivisionError
      else Inr \<lparr>actual_bytes_per_row =
                  Some (real_of_int (nbytes batch) / real_of_int (batch_num_rows batch)),
                estimated_bytes_per_row =
                  Some (real_of_int (file_total_size (frag_metadata fragment))
                        / real_of_int (md_num_rows (frag_metadata fragment)))\<rparr>)"
  using assms
  by (simp add: sample_live_fragment_def PARQUET_ENCODING_RATIO_ESTIMATE_NUM_ROWS_def
      int_truediv_def py_truediv_def foldl_total_size file_total_size_def Let_def)

text \<open>
  Claim C5: for a sampled file that resolves and whose first batch has rows, the recorded
  \<open>estimated_bytes_per_row\<close> is the sum of the byte sizes of all row groups of the file
  over the number of rows in the statistics of the file (the batch gives only the actual
  size). A sample is recorded unless those statistics count zero rows, where the division
  raises.
\<close>

theorem estimated_bytes_per_row_from_file_statistics:
  assumes "fst (deserialize_fragments_with_retry w [file_fragment]) = Inr (fragment # others)"
    and "frag_to_batches fragment
             (max (min (md_num_rows (frag_metadata fragment)) 1024) 1) = batch # rest"
    and "0 < batch_num_rows batch"
  shows "(md_num_rows (frag_metadata fragment) \<noteq> 0 \<longrightarrow>
            (\<exists>s. sample_fragment w file_fragment = Inr s
               \<and> estimated_bytes_per_row s =
                   Some (real_of_int (file_total_size (frag_metadata fragment))
                         / real_of_int (md_num_rows (frag_metadata fragment)))
               \<and> actual_bytes_per_row s =
                   Some (real_of_int (nbytes batch) / real_of_int (batch_num_rows batch))))
         \<and> (md_num_rows (frag_metadata fragment) = 0 \<longrightarrow>
              sample_fragment w file_fragment = Inl ZeroDivisionError)"
proof -
  have "sample_fragment w file_fragment = sample_live_fragment fragment"
    using assms(1) by (simp add: sample_fragment_def py_getitem_def)
  then show ?thesis
    using sample_live_fragment_nonempty[OF assms(2,3)] by simp
qed


lemma reliable_retry:
  "deserialize_fragments_with_retry reliable_world handles =
     (Inr handles, retry_state0\<lparr>attempts := 1\<rparr>)"
  unfolding deserialize_fragments_with_retry_def
  by (subst deserialize_loop.simps) (simp add: reliable_world_def FILE_READING_RETRY_def retry_state0_def)

text \<open>
  The file of 1000 rows and 2048 bytes: 2.048 bytes per row estimated, 3072 actual. The
  same file with statistics that count no rows: the division raises.
\<close>

theorem estimated_bytes_per_row_witness:
  "sample_fragment reliable_world (data_file ''part-0'') =
     Inr \<lparr>actual_bytes_per_row = Some 3072, estimated_bytes_per_row = Some (2048 / 1000)\<rparr>
   \<and> sample_fragment reliable_world
       ((data_file ''part-0'')
          \<lparr>frag_metadata := \<lparr>md_num_rows = 0, md_row_groups = [\<lparr>rg_total_byte_size = 2048\<rparr>]\<rparr>\<rparr>)
     = Inl ZeroDivisionError"
proof
  have r: "fst (deserialize_fragments_with_retry reliable_world [data_file ''part-0''])
      = Inr (data_file ''part-0'' # [])"
    by (simp add: reliable_retry)
  have b: "frag_to_batches (data_file ''part-0'')
             (max (min (md_num_rows (frag_metadata (data_file ''part-0''))) 1024) 1)
           = \<lparr>nbytes = 6144, batch_num_rows = 2\<rparr> # []"
    by (simp add: data_file_def)
  have n: "0 < batch_num_rows \<lparr>nbytes = 6144, batch_num_rows = 2\<rparr>" by simp
  from estimated_bytes_per_row_from_file_statistics[OF r b n]
  obtain s where "sample_fragment reliable_world (data_file ''part-0'') = Inr s"
    and "estimated_bytes_per_row s = Some (2048 / 1000)"
    and "actual_bytes_per_row s = Some 3072"
    by (auto simp: data_file_def file_total_size_def)
  then show "sample_fragment reliable_world (data_file ''part-0'') =
     Inr \<lparr>actual_bytes_per_row = Some 3072, estimated_bytes_per_row = Some (2048 / 1000)\<rparr>"
    by (cases s) simp
next
  let ?f = "(data_file ''part-0'')
          \<lparr>frag_metadata := \<lparr>md_num_rows = 0, md_row_groups = [\<lparr>rg_total_byte_size = 2048\<rparr>]\<rparr>\<rparr>"
  have r: "fst (deserialize_fragments_with_retry reliable_world [?f]) = Inr (?f # [])"
    by (simp add: reliable_retry)
  have b: "frag_to_batches ?f (max (min (md_num_rows (frag_metadata ?f)) 1024) 1)
           = \<lparr>nbytes = 6144, batch_num_rows = 2\<rparr> # []"
    by (simp add: data_file_def)
  have n: "0 < batch_num_rows \<lparr>nbytes = 6144, batch_num_rows = 2\<rparr>" by simp
  have z: "md_num_rows (frag_metadata ?f) = 0" by simp
  from estimated_bytes_per_row_from_file_statistics[OF r b n] z
  show "sample_fragment reliable_world ?f = Inl ZeroDivisionError" by blast
qed

subsection \<open>What planning changes\<close>

text \<open>
  Planning changes the store by the padding only, and the datasource by the state of
  its generator only; the padding changes a stored list exactly when it is shorter than
  the list of fragments.
\<close>

lemma get_read_tasks_frame:
  assumes "get_read_tasks st self n = (res, st1, self1)"
  shows "st1 = pad_metadata st (metadata_ref self) (length (pq_fragments self))"
    and "self1\<lparr>file_metadata_shuffler := file_metadata_shuffler self\<rparr> = self"
  using assms
  by (auto simp: get_read_tasks_def Let_def split: option.splits prod.splits sum.splits if_splits)

lemma pad_metadata_unchanged_iff:
  assumes "r < length st"
  shows "pad_metadata st r n = st \<longleftrightarrow> n \<le> length (deref st r)"
proof (cases "n \<le> length (deref st r)")
  case True
  then show ?thesis by (simp add: pad_metadata_def Let_def)
next
  case False
  then have "deref (pad_metadata st r n) r \<noteq> deref st r"
    using assms by (simp add: pad_metadata_def deref_def Let_def)
  then have "pad_metadata st r n \<noteq> st" by auto
  with False show ?thesis by simp
qed

subsection \<open>The near-equal split\<close>


lemma near_equal_groups_concat:
  assumes "1 \<le> n"
  shows "concat (near_equal_groups xs n) = xs"
  using assms
  by (simp add: near_equal_groups_def concat_filter_nonempty concat_chunks sum_list_sizes_of)

lemma near_equal_groups_nonempty: "g \<in> set (near_equal_groups xs n) \<Longrightarrow> g \<noteq> []"
  by (simp add: near_equal_groups_def)




lemma near_equal_groups_Nil:
  assumes "1 \<le> n"
  shows "near_equal_groups [] n = []"
proof (rule ccontr)
  assume "near_equal_groups ([] :: 'a list) n \<noteq> []"
  then obtain g gs where gs: "near_equal_groups ([] :: 'a list) n = g # gs"
    by (cases "near_equal_groups ([] :: 'a list) n") auto
  then have "g \<in> set (near_equal_groups ([] :: 'a list) n)" by simp
  then have "g \<noteq> []" by (rule near_equal_groups_nonempty)
  moreover have "concat (g # gs) = []"
    using near_equal_groups_concat[OF assms, of "[] :: 'a list"] by (simp only: gs)
  ultimately show False by simp
qed

lemma read_task_groups_near_equal:
  assumes "1 \<le> n"
  shows "\<exists>groups. read_task_groups frags paths mds n = Inr groups
           \<and> map fst groups = near_equal_groups frags n"
proof -
  define N where "N = nat n"
  define F where "F = chunks (sizes_of (length frags) N) frags"
  define R where "R = zip (chunks (sizes_of (length paths) N) paths)
                          (chunks (sizes_of (length mds) N) mds)"
  have N: "0 < N" using assms by (simp add: N_def)
  have lenF: "length F = N" using N by (simp add: F_def length_chunks length_sizes_of)
  have lenR: "length R = N" using N by (simp add: R_def length_chunks length_sizes_of)
  have res: "read_task_groups frags paths mds n = Inr (filter (\<lambda>g. fst g \<noteq> []) (zip F R))"
    using assms by (simp add: read_task_groups_eq F_def R_def N_def)
  have "map fst (filter (\<lambda>g. fst g \<noteq> []) (zip F R)) = filter (\<lambda>c. c \<noteq> []) F"
    using lenF lenR by (intro map_fst_filter_zip) simp
  then have "map fst (filter (\<lambda>g. fst g \<noteq> []) (zip F R)) = near_equal_groups frags n"
    by (simp only: near_equal_groups_def F_def N_def)
  with res show ?thesis by blast
qed

subsection \<open>From the sections to the read tasks\<close>

lemma make_read_task_ok:
  assumes "encoding_ratio self \<noteq> NaN"
  shows "\<exists>t. make_read_task self g = Inr t \<and> task_fragments t = fst g"
proof -
  obtain fragments paths metadata where g: "g = (fragments, paths, metadata)"
    by (cases g) auto
  obtain r where r: "encoding_ratio self = Finite r"
    using assms by (cases "encoding_ratio self") auto
  show ?thesis
    by (auto simp: g r make_read_task_def Let_def py_scale_def py_int_def split: option.splits)
qed

lemma mapE_make_read_task:
  assumes "groups = [] \<or> encoding_ratio self \<noteq> NaN"
  shows "\<exists>tasks. mapE (make_read_task self) groups = Inr tasks
           \<and> map task_fragments tasks = map fst groups"
  using assms
proof (induction groups)
  case Nil
  then show ?case by simp
next
  case (Cons g groups)
  then have r: "encoding_ratio self \<noteq> NaN" by simp
  from make_read_task_ok[OF r, of g]
  obtain t where t: "make_read_task self g = Inr t" "task_fragments t = fst g" by blast
  from Cons.IH r obtain tasks where ts: "mapE (make_read_task self) groups = Inr tasks"
      "map task_fragments tasks = map fst groups" by blast
  show ?case by (simp add: t ts)
qed

lemma split_read_tasks_groups:
  assumes "1 \<le> n" and "frags = [] \<or> encoding_ratio self \<noteq> NaN"
  shows "\<exists>tasks. split_read_tasks self frags paths mds n = Inr tasks
           \<and> map task_fragments tasks = near_equal_groups frags n"
proof -
  from read_task_groups_near_equal[OF assms(1), of frags paths mds]
  obtain groups where g: "read_task_groups frags paths mds n = Inr groups"
      "map fst groups = near_equal_groups frags n" by blast
  have "groups = [] \<or> encoding_ratio self \<noteq> NaN"
  proof (cases "frags = []")
    case True
    then have "map fst groups = []" using g(2) near_equal_groups_Nil[OF assms(1)] by simp
    then show ?thesis by simp
  next
    case False
    with assms(2) show ?thesis by simp
  qed
  from mapE_make_read_task[OF this]
  obtain tasks where t: "mapE (make_read_task self) groups = Inr tasks"
      "map task_fragments tasks = map fst groups" by blast
  show ?thesis by (simp add: split_read_tasks_def g t)
qed

lemma split_read_tasks_shuffler:
  "split_read_tasks (self\<lparr>file_metadata_shuffler := s\<rparr>) frags paths mds n =
     split_read_tasks self frags paths mds n"
proof -
  have "make_read_task (self\<lparr>file_metadata_shuffler := s\<rparr>) = make_read_task self"
    by (rule ext) (simp add: make_read_task_def Let_def split: prod.splits option.splits)
  then show ?thesis by (simp add: split_read_tasks_def split: sum.splits)
qed

lemma pad_metadata_idem: "pad_metadata (pad_metadata st r n) r n = pad_metadata st r n"
  by (cases "r < length st") (simp_all add: pad_metadata_def deref_def Let_def)

lemma length_pad_metadata: "length (pad_metadata st r n) = length st"
  by (simp add: pad_metadata_def Let_def)

lemma deref_pad_metadata:
  "r < length st \<Longrightarrow> n \<le> length (deref (pad_metadata st r n) r)"
  by (simp add: pad_metadata_def deref_def Let_def)

lemma valid_datasource_pad:
  assumes "valid_datasource st self"
  shows "valid_datasource (pad_metadata st r n) (self\<lparr>file_metadata_shuffler := s\<rparr>)"
  using assms by (simp add: valid_datasource_def length_pad_metadata)

lemma valid_datasource_pad_same:
  assumes "valid_datasource st self"
  shows "valid_datasource (pad_metadata st r n) self"
  using assms by (simp add: valid_datasource_def length_pad_metadata)

lemma mapE_py_getitem:
  assumes "\<forall>i\<in>set p. 0 \<le> i \<and> i < int (length xs)"
  shows "mapE (py_getitem xs) p = Inr (map (\<lambda>i. xs ! nat i) p)"
  using assms by (intro mapE_Inr_map) (simp add: py_getitem_in_range)

lemma permutation_indices:
  assumes "mset p = mset (map int [0..<n])"
  shows "\<forall>i\<in>set p. 0 \<le> i \<and> i < int n" and "length p = n"
proof -
  have "set p = set (map int [0..<n])" using assms by (rule mset_eq_setD)
  then show "\<forall>i\<in>set p. 0 \<le> i \<and> i < int n" by auto
  have "length p = length (map int [0..<n])" using assms by (rule mset_eq_length)
  then show "length p = n" by simp
qed


lemma get_read_tasks_unshuffled:
  assumes "file_metadata_shuffler self = None" and "1 \<le> n" and "valid_datasource st self"
  shows "\<exists>tasks st1.
      get_read_tasks st self n = (Inr tasks, st1, self)
      \<and> map task_fragments tasks = near_equal_groups (pq_fragments self) n
      \<and> get_read_tasks st1 self n = (Inr tasks, st1, self)
      \<and> valid_datasource st1 self"
proof -
  define st1 where "st1 = pad_metadata st (metadata_ref self) (length (pq_fragments self))"
  have ra: "pq_fragments self = [] \<or> encoding_ratio self \<noteq> NaN"
    using assms(3) by (simp add: valid_datasource_def)
  from split_read_tasks_groups[OF assms(2) ra]
  obtain tasks where t:
      "split_read_tasks self (pq_fragments self) (pq_paths self)
         (deref st1 (metadata_ref self)) n = Inr tasks"
      "map task_fragments tasks = near_equal_groups (pq_fragments self) n" by blast
  have first: "get_read_tasks st self n = (Inr tasks, st1, self)"
    using assms(1) t(1) by (simp add: get_read_tasks_def Let_def st1_def)
  have "pad_metadata st1 (metadata_ref self) (length (pq_fragments self)) = st1"
    by (simp add: st1_def pad_metadata_idem)
  then have second: "get_read_tasks st1 self n = (Inr tasks, st1, self)"
    using assms(1) t(1) by (simp add: get_read_tasks_def Let_def)
  have "valid_datasource st1 self"
    unfolding st1_def using assms(3) by (rule valid_datasource_pad_same)
  with first t(2) second show ?thesis by blast
qed

lemma get_read_tasks_shuffled:
  assumes sh: "file_metadata_shuffler self = Some g"
    and dr: "permutation g (length (pq_fragments self)) = (p, g1)"
    and pm: "mset p = mset (map int [0..<length (pq_fragments self)])"
    and ne: "pq_fragments self \<noteq> []"
    and n: "1 \<le> n" and va: "valid_datasource st self"
  shows "\<exists>tasks st1.
      get_read_tasks st self n = (Inr tasks, st1, self\<lparr>file_metadata_shuffler := Some g1\<rparr>)
      \<and> map task_fragments tasks =
          near_equal_groups (map (\<lambda>i. pq_fragments self ! nat i) p) n
      \<and> valid_datasource st1 (self\<lparr>file_metadata_shuffler := Some g1\<rparr>)"
proof -
  define L where "L = length (pq_fragments self)"
  define st1 where "st1 = pad_metadata st (metadata_ref self) L"
  define md where "md = deref st1 (metadata_ref self)"
  define files where "files = zip (pq_fragments self) (zip (pq_paths self) md)"
  define shuffled where "shuffled = map (\<lambda>i. files ! nat i) p"
  have ref: "metadata_ref self < length st" and pl: "length (pq_paths self) = L"
    and ra: "encoding_ratio self \<noteq> NaN"
    using va ne by (simp_all add: valid_datasource_def L_def)
  have mdlen: "L \<le> length md"
    using ref by (simp add: md_def st1_def deref_pad_metadata)
  have flen: "length files = L"
    using pl mdlen by (simp add: files_def L_def)
  have idx: "\<forall>i\<in>set p. 0 \<le> i \<and> i < int L" and plen: "length p = L"
    using permutation_indices[OF pm] by (simp_all add: L_def)
  have pick: "mapE (py_getitem files) p = Inr shuffled"
    using idx by (simp add: shuffled_def flen mapE_py_getitem)
  have sne: "shuffled \<noteq> []" using plen ne by (auto simp: shuffled_def L_def)
  have fsts: "map fst shuffled = map (\<lambda>i. pq_fragments self ! nat i) p"
  proof -
    have "fst (files ! nat i) = pq_fragments self ! nat i" if "i \<in> set p" for i
    proof -
      from that idx have "nat i < L" by auto
      then have "nat i < length (pq_fragments self)"
        and "nat i < length (zip (pq_paths self) md)"
        using pl mdlen by (simp_all add: L_def)
      then show ?thesis by (simp add: files_def)
    qed
    then show ?thesis by (simp add: shuffled_def)
  qed
  have "map fst shuffled = [] \<or> encoding_ratio self \<noteq> NaN" using ra by simp
  from split_read_tasks_groups[OF n this]
  obtain tasks where t:
      "split_read_tasks self (map fst shuffled) (map (fst \<circ> snd) shuffled)
         (map (snd \<circ> snd) shuffled) n = Inr tasks"
      "map task_fragments tasks = near_equal_groups (map fst shuffled) n" by blast
  have res: "get_read_tasks st self n = (Inr tasks, st1, self\<lparr>file_metadata_shuffler := Some g1\<rparr>)"
    using sh dr pick sne t(1)
    by (simp add: get_read_tasks_def Let_def L_def[symmetric] st1_def[symmetric]
        md_def[symmetric] files_def[symmetric] flen split_read_tasks_shuffler
        del: length_zip)
  have groups: "map task_fragments tasks =
      near_equal_groups (map (\<lambda>i. pq_fragments self ! nat i) p) n"
    by (simp only: t(2) fsts)
  have "valid_datasource st1 (self\<lparr>file_metadata_shuffler := Some g1\<rparr>)"
    unfolding st1_def using va by (rule valid_datasource_pad)
  with res groups show ?thesis by blast
qed






lemma near_equal_groups_eval:
  assumes "length xs = L" and "nat n = N" and "sizes_of L N = ss"
  shows "near_equal_groups xs n = filter (\<lambda>c. c \<noteq> []) (chunks ss xs)"
  using assms by (simp add: near_equal_groups_def)


lemma sizes_of_3_2: "sizes_of 3 2 = [2, 1]"
proof -
  have "(3::nat) mod 2 = 1" "(3::nat) div 2 = 1" by simp_all
  then show ?thesis by (simp add: sizes_of_def)
qed


subsection \<open>What the constructor establishes\<close>

lemma mapE_length: "mapE f xs = Inr ys \<Longrightarrow> length ys = length xs"
  by (induction xs arbitrary: ys) (auto split: sum.splits)

lemma num_samples_of_pos: "0 < n \<Longrightarrow> 0 < num_samples_of n"
  by (simp add: num_samples_of_div)

lemma sample_fragments_nonempty:
  assumes "handles \<noteq> []" and "sample_fragments w handles = Inr infos"
  shows "infos \<noteq> []"
proof -
  define samples where
    "samples = map (\<lambda>i. handles ! nat (index_at (length handles) i))
                 [0..<nat (num_samples_of (length handles))]"
  have fs: "file_samples handles = Inr samples"
    by (simp add: samples_def file_samples_eq)
  have "0 < num_samples_of (length handles)"
    using assms(1) by (intro num_samples_of_pos) simp
  then have "0 < length samples" by (simp add: samples_def)
  moreover have "mapE (sample_fragment w) samples = Inr infos"
    using assms(2) by (simp add: sample_fragments_def fs)
  then have "length infos = length samples" by (rule mapE_length)
  ultimately show ?thesis by auto
qed

lemma estimate_files_encoding_ratio_number:
  assumes "infos \<noteq> []" and "estimate_files_encoding_ratio ctx infos = Inr ratio"
  shows "ratio \<noteq> NaN"
proof (cases "decoding_size_estimation ctx")
  case False
  then show ?thesis using assms(2) by (auto simp: estimate_files_encoding_ratio_def)
next
  case True
  then obtain ratios where m: "mapE compute_encoding_ratio infos = Inr ratios"
    and r: "ratio = py_max (np_mean ratios) PARQUET_ENCODING_RATIO_ESTIMATE_LOWER_BOUND"
    using assms(2) by (auto simp: estimate_files_encoding_ratio_def split: sum.splits)
  from m have "length ratios = length infos" by (rule mapE_length)
  then have "ratios \<noteq> []" using assms(1) by auto
  then show ?thesis by (simp add: r np_mean_def py_max_def)
qed

lemma datasource_init_Inr:
  assumes "datasource_init ctx w st pq_ds provider inferred sch filtered shuffle_files
             = Inr (ds, st')"
  shows "\<exists>fragments metadata infos ratio.
      pq_ds = Dataset fragments
      \<and> prefetch_metadata provider fragments = Inr metadata
      \<and> sample_fragments w (map (serialize w) fragments) = Inr infos
      \<and> estimate_files_encoding_ratio ctx infos = Inr ratio
      \<and> st' = st @ [metadata]
      \<and> metadata_ref ds = length st
      \<and> pq_fragments ds = map (serialize w) fragments
      \<and> pq_paths ds = map frag_path fragments
      \<and> encoding_ratio ds = ratio
      \<and> file_metadata_shuffler ds = (if shuffle_files then Some (default_rng w) else None)"
proof (cases pq_ds)
  case (DatasetRaises e)
  then show ?thesis using assms by (cases e) (simp_all add: datasource_init_def)
next
  case (Dataset fragments)
  then show ?thesis
    using assms
    by (auto simp: datasource_init_def alloc_def Let_def split: sum.splits)
qed

lemma datasource_init_valid:
  assumes "datasource_init ctx w st pq_ds provider inferred sch filtered shuffle_files
             = Inr (ds, st')"
  shows "file_metadata_shuffler ds = (if shuffle_files then Some (default_rng w) else None)"
    and "valid_datasource st' ds"
proof -
  from datasource_init_Inr[OF assms]
  obtain fragments metadata infos ratio where
      s: "sample_fragments w (map (serialize w) fragments) = Inr infos"
    and e: "estimate_files_encoding_ratio ctx infos = Inr ratio"
    and st: "st' = st @ [metadata]"
    and r: "metadata_ref ds = length st"
    and f: "pq_fragments ds = map (serialize w) fragments"
    and p: "pq_paths ds = map frag_path fragments"
    and er: "encoding_ratio ds = ratio"
    and sh: "file_metadata_shuffler ds = (if shuffle_files then Some (default_rng w) else None)"
    by (elim exE conjE) (rule that; assumption)
  show "file_metadata_shuffler ds = (if shuffle_files then Some (default_rng w) else None)"
    by (rule sh)
  have "pq_fragments ds = [] \<or> encoding_ratio ds \<noteq> NaN"
  proof (cases "pq_fragments ds = []")
    case False
    then have "map (serialize w) fragments \<noteq> []" by (simp add: f)
    then have "infos \<noteq> []" using s by (rule sample_fragments_nonempty)
    then have "ratio \<noteq> NaN" using e by (rule estimate_files_encoding_ratio_number)
    then show ?thesis by (simp add: er)
  qed simp
  then show "valid_datasource st' ds"
    by (simp add: valid_datasource_def st r f p)
qed

subsection \<open>Shuffling and repeated planning\<close>

lemma get_read_tasks_draw:
  assumes sh: "file_metadata_shuffler self = Some g"
    and ne: "pq_fragments self \<noteq> []"
    and pm: "mset (draws g (drawn g) (length (pq_fragments self))) =
               mset (map int [0..<length (pq_fragments self)])"
    and n: "1 \<le> n" and va: "valid_datasource st self"
  shows "\<exists>tasks st1.
      get_read_tasks st self n =
        (Inr tasks, st1, self\<lparr>file_metadata_shuffler := Some (g\<lparr>drawn := Suc (drawn g)\<rparr>)\<rparr>)
      \<and> map task_fragments tasks =
          near_equal_groups
            (map (\<lambda>i. pq_fragments self ! nat i) (draws g (drawn g) (length (pq_fragments self)))) n
      \<and> valid_datasource st1 (self\<lparr>file_metadata_shuffler := Some (g\<lparr>drawn := Suc (drawn g)\<rparr>)\<rparr>)"
proof -
  have dr: "permutation g (length (pq_fragments self)) =
      (draws g (drawn g) (length (pq_fragments self)), g\<lparr>drawn := Suc (drawn g)\<rparr>)"
    by (simp add: permutation_def)
  show ?thesis by (rule get_read_tasks_shuffled[OF sh dr pm ne n va])
qed

text \<open>
  Claim C4, as the code has it. The constructor stores the generator that
  \<^verbatim>\<open>np.random.default_rng()\<close> returns when shuffling is requested, and none otherwise;
  the code has no seed and stores no permutation. Without a generator the tasks hold
  the near-equal split of the fragments in their stored order, and a second call returns
  the same tasks. With a generator, each call takes the next draw of the generator and
  leaves the generator advanced by one draw: the tasks hold the near-equal split of the
  fragments rearranged by that draw, so any call over the same fragments whose generator
  draws the same permutation returns the same groups, and the next call on this
  datasource uses the next draw.
\<close>

theorem shuffle_draws_from_stored_generator:
  assumes "1 \<le> n" and "valid_datasource st self"
  shows "(\<forall>ds st1.
            datasource_init ctx w st0 pq_ds provider inferred sch filtered shuffle_files
              = Inr (ds, st1) \<longrightarrow>
            file_metadata_shuffler ds = (if shuffle_files then Some (default_rng w) else None)
            \<and> valid_datasource st1 ds)
       \<and> (file_metadata_shuffler self = None \<longrightarrow>
            (\<exists>tasks st1.
               get_read_tasks st self n = (Inr tasks, st1, self)
               \<and> map task_fragments tasks = near_equal_groups (pq_fragments self) n
               \<and> get_read_tasks st1 self n = (Inr tasks, st1, self)))
       \<and> (file_metadata_shuffler self = Some g
            \<and> pq_fragments self \<noteq> []
            \<and> mset (draws g (drawn g) (length (pq_fragments self))) =
                mset (map int [0..<length (pq_fragments self)]) \<longrightarrow>
            (\<exists>tasks st1.
               get_read_tasks st self n =
                 (Inr tasks, st1,
                  self\<lparr>file_metadata_shuffler := Some (g\<lparr>drawn := Suc (drawn g)\<rparr>)\<rparr>)
               \<and> map task_fragments tasks =
                   near_equal_groups
                     (map (\<lambda>i. pq_fragments self ! nat i)
                        (draws g (drawn g) (length (pq_fragments self)))) n
               \<and> valid_datasource st1
                   (self\<lparr>file_metadata_shuffler := Some (g\<lparr>drawn := Suc (drawn g)\<rparr>)\<rparr>)
               \<and> (\<forall>st' self' g'.
                     valid_datasource st' self'
                     \<and> pq_fragments self' = pq_fragments self
                     \<and> file_metadata_shuffler self' = Some g'
                     \<and> draws g' (drawn g') (length (pq_fragments self)) =
                         draws g (drawn g) (length (pq_fragments self)) \<longrightarrow>
                     (\<exists>tasks'. fst (get_read_tasks st' self' n) = Inr tasks'
                        \<and> map task_fragments tasks' = map task_fragments tasks))))"
proof (intro conjI allI impI)
  fix ds st1
  assume a: "datasource_init ctx w st0 pq_ds provider inferred sch filtered shuffle_files
              = Inr (ds, st1)"
  show "file_metadata_shuffler ds = (if shuffle_files then Some (default_rng w) else None)"
    using a by (rule datasource_init_valid(1))
  show "valid_datasource st1 ds"
    using a by (rule datasource_init_valid(2))
next
  assume "file_metadata_shuffler self = None"
  from get_read_tasks_unshuffled[OF this assms]
  show "\<exists>tasks st1.
               get_read_tasks st self n = (Inr tasks, st1, self)
               \<and> map task_fragments tasks = near_equal_groups (pq_fragments self) n
               \<and> get_read_tasks st1 self n = (Inr tasks, st1, self)"
    by (elim exE conjE) (intro exI conjI; assumption)
next
  let ?L = "length (pq_fragments self)"
  let ?p = "draws g (drawn g) ?L"
  let ?self1 = "self\<lparr>file_metadata_shuffler := Some (g\<lparr>drawn := Suc (drawn g)\<rparr>)\<rparr>"
  assume a: "file_metadata_shuffler self = Some g
            \<and> pq_fragments self \<noteq> []
            \<and> mset ?p = mset (map int [0..<?L])"
  then have sh: "file_metadata_shuffler self = Some g" and ne: "pq_fragments self \<noteq> []"
    and pm: "mset ?p = mset (map int [0..<?L])" by simp_all
  from get_read_tasks_draw[OF sh ne pm assms]
  obtain tasks st1 where
      r: "get_read_tasks st self n = (Inr tasks, st1, ?self1)"
    and g: "map task_fragments tasks =
              near_equal_groups (map (\<lambda>i. pq_fragments self ! nat i) ?p) n"
    and v: "valid_datasource st1 ?self1"
    by (elim exE conjE) (rule that; assumption)
  have other: "\<forall>st' self' g'.
       valid_datasource st' self'
       \<and> pq_fragments self' = pq_fragments self
       \<and> file_metadata_shuffler self' = Some g'
       \<and> draws g' (drawn g') ?L = ?p \<longrightarrow>
       (\<exists>tasks'. fst (get_read_tasks st' self' n) = Inr tasks'
          \<and> map task_fragments tasks' = map task_fragments tasks)"
  proof (intro allI impI)
    fix st' self' g'
    assume b: "valid_datasource st' self'
       \<and> pq_fragments self' = pq_fragments self
       \<and> file_metadata_shuffler self' = Some g'
       \<and> draws g' (drawn g') ?L = ?p"
    then have va': "valid_datasource st' self'"
      and fr': "pq_fragments self' = pq_fragments self"
      and sh': "file_metadata_shuffler self' = Some g'"
      and dr': "draws g' (drawn g') ?L = ?p" by simp_all
    have ne': "pq_fragments self' \<noteq> []" using ne by (simp add: fr')
    have pm': "mset (draws g' (drawn g') (length (pq_fragments self'))) =
        mset (map int [0..<length (pq_fragments self')])"
      using pm by (simp add: fr' dr')
    from get_read_tasks_draw[OF sh' ne' pm' assms(1) va']
    obtain tasks' st1' where
        r': "get_read_tasks st' self' n =
              (Inr tasks', st1', self'\<lparr>file_metadata_shuffler := Some (g'\<lparr>drawn := Suc (drawn g')\<rparr>)\<rparr>)"
      and g': "map task_fragments tasks' =
                near_equal_groups (map (\<lambda>i. pq_fragments self' ! nat i)
                  (draws g' (drawn g') (length (pq_fragments self')))) n"
      by (elim exE conjE) (rule that; assumption)
    have "fst (get_read_tasks st' self' n) = Inr tasks'" by (simp add: r')
    moreover have "map task_fragments tasks' = map task_fragments tasks"
      by (simp only: g g' fr' dr')
    ultimately show "\<exists>tasks'. fst (get_read_tasks st' self' n) = Inr tasks'
          \<and> map task_fragments tasks' = map task_fragments tasks" by blast
  qed
  show "\<exists>tasks st1.
               get_read_tasks st self n = (Inr tasks, st1, ?self1)
               \<and> map task_fragments tasks =
                   near_equal_groups (map (\<lambda>i. pq_fragments self ! nat i) ?p) n
               \<and> valid_datasource st1 ?self1
               \<and> (\<forall>st' self' g'.
                     valid_datasource st' self'
                     \<and> pq_fragments self' = pq_fragments self
                     \<and> file_metadata_shuffler self' = Some g'
                     \<and> draws g' (drawn g') ?L = ?p \<longrightarrow>
                     (\<exists>tasks'. fst (get_read_tasks st' self' n) = Inr tasks'
                        \<and> map task_fragments tasks' = map task_fragments tasks))"
    by (intro exI[of _ tasks] exI[of _ st1] conjI) (rule r, rule g, rule v, rule other)
qed

lemma upt_3: "[0..<3] = [0, 1, 2]"
  by (simp add: upt_rec)

lemma near_equal_groups_3_2:
  "near_equal_groups [x, y, z] 2 = [[x, y], [z]]"
proof -
  have l: "length [x, y, z] = 3" by simp
  have n: "nat 2 = 2" by simp
  show ?thesis by (simp add: near_equal_groups_eval[OF l n sizes_of_3_2])
qed

lemma shuffled_datasource_facts:
  "file_metadata_shuffler shuffled_datasource = Some (default_rng reliable_world)"
  "pq_fragments shuffled_datasource = [''part-0'', ''part-1'', ''part-2'']"
  "length (pq_fragments shuffled_datasource) = 3"
  "valid_datasource [[]] shuffled_datasource"
  by (simp_all add: shuffled_datasource_def three_file_datasource_def
      unprefetched_datasource_def valid_datasource_def)

lemma reliable_draws:
  "draws (default_rng reliable_world) 0 3 = [0, 1, 2]"
  "draws (default_rng reliable_world) 1 3 = [2, 1, 0]"
  "draws (default_rng reliable_world) (Suc 0) 3 = [2, 1, 0]"
  "draws (default_rng reliable_world) 3 3 = [2, 1, 0]"
  "drawn (default_rng reliable_world) = 0"
  by (simp_all add: reliable_world_def upt_3)

lemma mset_3: "mset [0, 1, 2 :: int] = mset (map int [0..<3])"
  "mset [2, 1, 0 :: int] = mset (map int [0..<3])"
  by (simp_all add: upt_3)

text \<open>
  Two calls in a row on one shuffling datasource over three files, with parallelism 2 and
  a generator whose first draw is the identity and whose second is the reversal: the
  first call puts the first two files in one task and the third in another, the second
  call puts the last two files, reversed, in one task and the first in another.
\<close>

theorem repeated_shuffle_counterexample:
  "\<exists>tasks1 st1 self1 tasks2 st2 self2.
     get_read_tasks [[]] shuffled_datasource 2 = (Inr tasks1, st1, self1)
     \<and> get_read_tasks st1 self1 2 = (Inr tasks2, st2, self2)
     \<and> map task_fragments tasks1 = [[''part-0'', ''part-1''], [''part-2'']]
     \<and> map task_fragments tasks2 = [[''part-2'', ''part-1''], [''part-0'']]
     \<and> map task_fragments tasks1 \<noteq> map task_fragments tasks2"
proof -
  let ?S = "shuffled_datasource"
  let ?g = "default_rng reliable_world"
  let ?g1 = "?g\<lparr>drawn := Suc (drawn ?g)\<rparr>"
  let ?S1 = "?S\<lparr>file_metadata_shuffler := Some ?g1\<rparr>"
  let ?g2 = "?g1\<lparr>drawn := Suc (drawn ?g1)\<rparr>"
  let ?S2 = "?S1\<lparr>file_metadata_shuffler := Some ?g2\<rparr>"
  note sh = shuffled_datasource_facts(1) and fr = shuffled_datasource_facts(2)
    and lf = shuffled_datasource_facts(3) and v = shuffled_datasource_facts(4)
  have n: "(1::int) \<le> 2" by simp
  have ne: "pq_fragments ?S \<noteq> []" by (simp add: fr)
  have d0: "draws ?g (drawn ?g) (length (pq_fragments ?S)) = [0, 1, 2]"
    by (simp only: lf reliable_draws)
  have pm: "mset (draws ?g (drawn ?g) (length (pq_fragments ?S))) =
      mset (map int [0..<length (pq_fragments ?S)])"
    unfolding d0 by (simp only: lf mset_3)
  from get_read_tasks_draw[OF sh ne pm n v]
  obtain tasks1 st1 where r1: "get_read_tasks [[]] ?S 2 = (Inr tasks1, st1, ?S1)"
    and g1: "map task_fragments tasks1 =
        near_equal_groups (map (\<lambda>i. pq_fragments ?S ! nat i)
          (draws ?g (drawn ?g) (length (pq_fragments ?S)))) 2"
    and v1: "valid_datasource st1 ?S1"
    by (elim exE conjE) (rule that; assumption)
  have "map (\<lambda>i. pq_fragments ?S ! nat i) [0, 1, 2] = [''part-0'', ''part-1'', ''part-2'']"
    by (simp add: fr)
  then have c1: "map task_fragments tasks1 = [[''part-0'', ''part-1''], [''part-2'']]"
    by (simp only: g1 d0 near_equal_groups_3_2)
  have sh1: "file_metadata_shuffler ?S1 = Some ?g1" by simp
  have fr1: "pq_fragments ?S1 = pq_fragments ?S" by simp
  have ne1: "pq_fragments ?S1 \<noteq> []" by (simp add: fr)
  have "drawn ?g1 = 1" by (simp add: reliable_draws)
  then have d1: "draws ?g1 (drawn ?g1) (length (pq_fragments ?S1)) = [2, 1, 0]"
    by (simp add: lf reliable_draws)
  have pm1: "mset (draws ?g1 (drawn ?g1) (length (pq_fragments ?S1))) =
      mset (map int [0..<length (pq_fragments ?S1)])"
    unfolding d1 by (simp only: fr1 lf mset_3)
  from get_read_tasks_draw[OF sh1 ne1 pm1 n v1]
  obtain tasks2 st2 where r2: "get_read_tasks st1 ?S1 2 = (Inr tasks2, st2, ?S2)"
    and g2: "map task_fragments tasks2 =
        near_equal_groups (map (\<lambda>i. pq_fragments ?S1 ! nat i)
          (draws ?g1 (drawn ?g1) (length (pq_fragments ?S1)))) 2"
    by (elim exE conjE) (rule that; assumption)
  have "map (\<lambda>i. pq_fragments ?S1 ! nat i) [2, 1, 0] = [''part-2'', ''part-1'', ''part-0'']"
    by (simp add: fr)
  then have c2: "map task_fragments tasks2 = [[''part-2'', ''part-1''], [''part-0'']]"
    by (simp only: g2 d1 near_equal_groups_3_2)
  have c3: "map task_fragments tasks1 \<noteq> map task_fragments tasks2"
    by (simp add: c1 c2)
  show ?thesis
    by (intro exI conjI) (rule r1, rule r2, rule c1, rule c2, rule c3)
qed

lemma sample_indices_3: "sample_indices 3 = [0, 2]"
proof -
  have "num_samples_of 3 = 2" by (simp add: num_samples_of_div)
  then show ?thesis
    by (simp add: sample_indices_eq index_at_def upt_rec)
qed

lemma sample_data_file:
  "sample_fragment reliable_world (data_file p) =
     Inr \<lparr>actual_bytes_per_row = Some 3072, estimated_bytes_per_row = Some (2048 / 1000)\<rparr>"
  by (simp add: sample_fragment_def reliable_retry py_getitem_def sample_live_fragment_def
      data_file_def int_truediv_def py_truediv_def)

lemma datasource_init_three_files:
  "datasource_init \<lparr>decoding_size_estimation = True, target_max_block_size = 134217728\<rparr>
     reliable_world []
     (Dataset [data_file ''bucket/part-0.parquet'', data_file ''bucket/part-1.parquet'',
               data_file ''bucket/part-2.parquet''])
     plain_provider ''schema'' ''schema'' False True =
   Inr (\<lparr>metadata_ref = 0,
         pq_fragments = [data_file ''bucket/part-0.parquet'', data_file ''bucket/part-1.parquet'',
                         data_file ''bucket/part-2.parquet''],
         pq_paths = [''bucket/part-0.parquet'', ''bucket/part-1.parquet'',
                     ''bucket/part-2.parquet''],
         the_meta_provider = plain_provider,
         inferred_schema = ''schema'',
         schema = ''schema'',
         has_filter = False,
         file_metadata_shuffler = Some (default_rng reliable_world),
         encoding_ratio = Finite 1500,
         default_read_batch_size_rows = Finite 4369\<rparr>, [[]])"
proof -
  let ?files = "[data_file ''bucket/part-0.parquet'', data_file ''bucket/part-1.parquet'',
                 data_file ''bucket/part-2.parquet'']"
  let ?ctx = "\<lparr>decoding_size_estimation = True, target_max_block_size = 134217728\<rparr>"
  let ?samples = "[\<lparr>actual_bytes_per_row = Some 3072, estimated_bytes_per_row = Some (256 / 125)\<rparr>,
           \<lparr>actual_bytes_per_row = Some 3072, estimated_bytes_per_row = Some (256 / 125)\<rparr>]"
  have ser: "\<And>f. serialize reliable_world f = f"
    by (simp add: reliable_world_def)
  have len: "length ?files = 3" by simp
  have "file_samples ?files = mapE (py_getitem ?files) [0, 2]"
    by (simp only: file_samples_def len sample_indices_3)
  also have "\<dots> = Inr [data_file ''bucket/part-0.parquet'', data_file ''bucket/part-2.parquet'']"
    by (simp add: py_getitem_def)
  finally have chosen: "file_samples ?files =
      Inr [data_file ''bucket/part-0.parquet'', data_file ''bucket/part-2.parquet'']" .
  have samples: "sample_fragments reliable_world ?files = Inr ?samples"
    by (simp add: sample_fragments_def chosen sample_data_file)
  have prefetch: "prefetch_metadata plain_provider ?files = Inr []"
    by (simp add: prefetch_metadata_def plain_provider_def)
  have ratio: "estimate_files_encoding_ratio ?ctx ?samples = Inr (Finite 1500)"
    by (simp add: estimate_files_encoding_ratio_def compute_encoding_ratio_def py_truediv_def
        np_mean_def py_max_def PARQUET_ENCODING_RATIO_ESTIMATE_LOWER_BOUND_def)
  have rows: "estimate_default_read_batch_size_rows ?ctx ?samples = Inr (Finite 4369)"
    by (simp add: estimate_default_read_batch_size_rows_def compute_batch_size_rows_def
        py_floordiv_def np_mean_def PARQUET_READER_ROW_BATCH_SIZE_def)
  have path: "\<And>p. frag_path (data_file p) = p"
    by (simp add: data_file_def)
  show ?thesis
    by (simp add: datasource_init_def prefetch ser samples ratio rows alloc_def Let_def path)
qed

text \<open>
  The constructor with shuffling over three files; the three files without shuffling and
  parallelism 2, planned twice; and the three files with the generator at its second
  draw, the reversal, planned beside another datasource over the same files (other
  stored metadata, generator at its fourth draw, the reversal again).
\<close>

theorem shuffle_draws_from_stored_generator_witness:
  "(\<exists>ds st1.
      datasource_init \<lparr>decoding_size_estimation = True, target_max_block_size = 134217728\<rparr>
        reliable_world []
        (Dataset [data_file ''bucket/part-0.parquet'', data_file ''bucket/part-1.parquet'',
                  data_file ''bucket/part-2.parquet''])
        plain_provider ''schema'' ''schema'' False True = Inr (ds, st1)
      \<and> file_metadata_shuffler ds = Some (default_rng reliable_world)
      \<and> valid_datasource st1 ds)
   \<and> (\<exists>tasks st1.
      get_read_tasks [[]] three_file_datasource 2 = (Inr tasks, st1, three_file_datasource)
      \<and> map task_fragments tasks = [[''part-0'', ''part-1''], [''part-2'']]
      \<and> get_read_tasks st1 three_file_datasource 2 = (Inr tasks, st1, three_file_datasource))
   \<and> (\<exists>tasks st1 tasks'.
      get_read_tasks [[]]
        (shuffled_datasource
           \<lparr>file_metadata_shuffler := Some ((default_rng reliable_world)\<lparr>drawn := 1\<rparr>)\<rparr>) 2 =
        (Inr tasks, st1,
         shuffled_datasource
           \<lparr>file_metadata_shuffler := Some ((default_rng reliable_world)\<lparr>drawn := 2\<rparr>)\<rparr>)
      \<and> map task_fragments tasks = [[''part-2'', ''part-1''], [''part-0'']]
      \<and> fst (get_read_tasks [[], [None, None, None]]
            (three_file_datasource
               \<lparr>metadata_ref := 1,
                file_metadata_shuffler := Some ((default_rng reliable_world)\<lparr>drawn := 3\<rparr>)\<rparr>) 2)
          = Inr tasks'
      \<and> map task_fragments tasks' = [[''part-2'', ''part-1''], [''part-0'']])"
proof (intro conjI)
  have n: "(1::int) \<le> 2" by simp
  have v: "valid_datasource [[]] three_file_datasource"
    by (simp add: valid_datasource_def three_file_datasource_def unprefetched_datasource_def)
  note c = shuffle_draws_from_stored_generator
      [where st = "[[]]" and self = three_file_datasource and n = 2, OF n v,
        THEN conjunct1, THEN spec, THEN spec, THEN mp, OF datasource_init_three_files]
  from c have c1: "file_metadata_shuffler
      \<lparr>metadata_ref = 0,
         pq_fragments = [data_file ''bucket/part-0.parquet'', data_file ''bucket/part-1.parquet'',
                         data_file ''bucket/part-2.parquet''],
         pq_paths = [''bucket/part-0.parquet'', ''bucket/part-1.parquet'',
                     ''bucket/part-2.parquet''],
         the_meta_provider = plain_provider :: (live_fragment, string) meta_provider,
         inferred_schema = ''schema'',
         schema = ''schema'',
         has_filter = False,
         file_metadata_shuffler = Some (default_rng reliable_world),
         encoding_ratio = Finite 1500,
         default_read_batch_size_rows = Finite 4369\<rparr> = Some (default_rng reliable_world)"
    by simp
  from c have c2: "valid_datasource [[]]
      \<lparr>metadata_ref = 0,
         pq_fragments = [data_file ''bucket/part-0.parquet'', data_file ''bucket/part-1.parquet'',
                         data_file ''bucket/part-2.parquet''],
         pq_paths = [''bucket/part-0.parquet'', ''bucket/part-1.parquet'',
                     ''bucket/part-2.parquet''],
         the_meta_provider = plain_provider :: (live_fragment, string) meta_provider,
         inferred_schema = ''schema'',
         schema = ''schema'',
         has_filter = False,
         file_metadata_shuffler = Some (default_rng reliable_world),
         encoding_ratio = Finite 1500,
         default_read_batch_size_rows = Finite 4369\<rparr>"
    by (rule conjunct2)
  show "\<exists>ds st1.
      datasource_init \<lparr>decoding_size_estimation = True, target_max_block_size = 134217728\<rparr>
        reliable_world []
        (Dataset [data_file ''bucket/part-0.parquet'', data_file ''bucket/part-1.parquet'',
                  data_file ''bucket/part-2.parquet''])
        (plain_provider :: (live_fragment, string) meta_provider)
        ''schema'' ''schema'' False True = Inr (ds, st1)
      \<and> file_metadata_shuffler ds = Some (default_rng reliable_world)
      \<and> valid_datasource st1 ds"
    by (intro exI conjI) (rule datasource_init_three_files, rule c1, rule c2)
next
  let ?S = "three_file_datasource"
  have n: "(1::int) \<le> 2" by simp
  have v: "valid_datasource [[]] ?S"
    by (simp add: valid_datasource_def three_file_datasource_def unprefetched_datasource_def)
  have s: "file_metadata_shuffler ?S = None"
    by (simp add: three_file_datasource_def unprefetched_datasource_def)
  have fr: "pq_fragments ?S = [''part-0'', ''part-1'', ''part-2'']"
    by (simp add: three_file_datasource_def)
  note a = shuffle_draws_from_stored_generator
      [where st = "[[]]" and self = ?S and n = 2, OF n v,
        THEN conjunct2, THEN conjunct1, THEN mp, OF s]
  from a obtain tasks st1 where r: "get_read_tasks [[]] ?S 2 = (Inr tasks, st1, ?S)"
    and g: "map task_fragments tasks = near_equal_groups (pq_fragments ?S) 2"
    and r2: "get_read_tasks st1 ?S 2 = (Inr tasks, st1, ?S)"
    by (elim exE conjE) (rule that; assumption)
  have g': "map task_fragments tasks = [[''part-0'', ''part-1''], [''part-2'']]"
    by (simp only: g fr near_equal_groups_3_2)
  show "\<exists>tasks st1.
      get_read_tasks [[]] three_file_datasource 2 = (Inr tasks, st1, three_file_datasource)
      \<and> map task_fragments tasks = [[''part-0'', ''part-1''], [''part-2'']]
      \<and> get_read_tasks st1 three_file_datasource 2 = (Inr tasks, st1, three_file_datasource)"
    by (intro exI conjI) (rule r, rule g', rule r2)
next
  let ?g = "default_rng reliable_world"
  let ?g1 = "?g\<lparr>drawn := 1\<rparr>"
  let ?S1 = "shuffled_datasource\<lparr>file_metadata_shuffler := Some ?g1\<rparr>"
  let ?T = "three_file_datasource
               \<lparr>metadata_ref := 1, file_metadata_shuffler := Some (?g\<lparr>drawn := 3\<rparr>)\<rparr>"
  let ?L = "length (pq_fragments ?S1)"
  have n: "(1::int) \<le> 2" by simp
  have sh: "file_metadata_shuffler ?S1 = Some ?g1" by simp
  have fr: "pq_fragments ?S1 = [''part-0'', ''part-1'', ''part-2'']"
    by (simp add: shuffled_datasource_facts)
  have lf: "?L = 3" by (simp add: shuffled_datasource_facts)
  have ne: "pq_fragments ?S1 \<noteq> []" by (simp add: shuffled_datasource_facts)
  have v: "valid_datasource [[]] ?S1"
    using shuffled_datasource_facts(4) by (simp add: valid_datasource_def)
  have d1: "draws ?g1 (drawn ?g1) ?L = [2, 1, 0]"
    unfolding lf by (simp add: reliable_draws)
  have pm: "mset (draws ?g1 (drawn ?g1) ?L) = mset (map int [0..<?L])"
    unfolding d1 by (simp only: lf mset_3)
  have hyp: "file_metadata_shuffler ?S1 = Some ?g1 \<and> pq_fragments ?S1 \<noteq> []
      \<and> mset (draws ?g1 (drawn ?g1) ?L) = mset (map int [0..<?L])"
    by (intro conjI) (rule sh, rule ne, rule pm)
  note b = shuffle_draws_from_stored_generator
      [where st = "[[]]" and self = ?S1 and n = 2 and g = ?g1, OF n v,
        THEN conjunct2, THEN conjunct2, THEN mp, OF hyp]
  from b obtain tasks st1 where
      r: "get_read_tasks [[]] ?S1 2 =
            (Inr tasks, st1, ?S1\<lparr>file_metadata_shuffler := Some (?g1\<lparr>drawn := Suc (drawn ?g1)\<rparr>)\<rparr>)"
    and g: "map task_fragments tasks =
              near_equal_groups (map (\<lambda>i. pq_fragments ?S1 ! nat i) (draws ?g1 (drawn ?g1) ?L)) 2"
    and other: "\<forall>st' (self' :: (string, live_fragment, string) datasource) g'.
         valid_datasource st' self'
         \<and> pq_fragments self' = pq_fragments ?S1
         \<and> file_metadata_shuffler self' = Some g'
         \<and> draws g' (drawn g') ?L = draws ?g1 (drawn ?g1) ?L \<longrightarrow>
         (\<exists>tasks'. fst (get_read_tasks st' self' 2) = Inr tasks'
            \<and> map task_fragments tasks' = map task_fragments tasks)"
    by (elim exE conjE) (rule that; assumption)
  have "map (\<lambda>i. pq_fragments ?S1 ! nat i) [2, 1, 0] = [''part-2'', ''part-1'', ''part-0'']"
    by (simp add: shuffled_datasource_facts)
  then have g': "map task_fragments tasks = [[''part-2'', ''part-1''], [''part-0'']]"
    by (simp only: g d1 near_equal_groups_3_2)
  have adv: "?S1\<lparr>file_metadata_shuffler := Some (?g1\<lparr>drawn := Suc (drawn ?g1)\<rparr>)\<rparr> =
      shuffled_datasource\<lparr>file_metadata_shuffler := Some (?g\<lparr>drawn := 2\<rparr>)\<rparr>"
    by simp
  have r': "get_read_tasks [[]] ?S1 2 =
      (Inr tasks, st1, shuffled_datasource\<lparr>file_metadata_shuffler := Some (?g\<lparr>drawn := 2\<rparr>)\<rparr>)"
    using r by (simp only: adv)
  have hyp': "valid_datasource [[], [None, None, None]] ?T
         \<and> pq_fragments ?T = pq_fragments ?S1
         \<and> file_metadata_shuffler ?T = Some (?g\<lparr>drawn := 3\<rparr>)
         \<and> draws (?g\<lparr>drawn := 3\<rparr>) (drawn (?g\<lparr>drawn := 3\<rparr>)) ?L = draws ?g1 (drawn ?g1) ?L"
  proof (intro conjI)
    show "valid_datasource [[], [None, None, None]] ?T"
      by (simp add: valid_datasource_def three_file_datasource_def unprefetched_datasource_def)
    show "pq_fragments ?T = pq_fragments ?S1"
      by (simp add: shuffled_datasource_def)
    show "file_metadata_shuffler ?T = Some (?g\<lparr>drawn := 3\<rparr>)" by simp
    show "draws (?g\<lparr>drawn := 3\<rparr>) (drawn (?g\<lparr>drawn := 3\<rparr>)) ?L = draws ?g1 (drawn ?g1) ?L"
      unfolding d1 lf by (simp add: reliable_draws)
  qed
  from other[THEN spec, THEN spec, THEN spec, THEN mp, OF hyp']
  obtain tasks' where t1: "fst (get_read_tasks [[], [None, None, None]] ?T 2) = Inr tasks'"
    and t2: "map task_fragments tasks' = map task_fragments tasks"
    by (elim exE conjE) (rule that; assumption)
  have t2': "map task_fragments tasks' = [[''part-2'', ''part-1''], [''part-0'']]"
    by (simp only: t2 g')
  show "\<exists>tasks st1 tasks'.
      get_read_tasks [[]] ?S1 2 =
        (Inr tasks, st1,
         shuffled_datasource\<lparr>file_metadata_shuffler := Some (?g\<lparr>drawn := 2\<rparr>)\<rparr>)
      \<and> map task_fragments tasks = [[''part-2'', ''part-1''], [''part-0'']]
      \<and> fst (get_read_tasks [[], [None, None, None]] ?T 2) = Inr tasks'
      \<and> map task_fragments tasks' = [[''part-2'', ''part-1''], [''part-0'']]"
    by (intro exI conjI) (rule r', rule g', rule t1, rule t2')
qed

subsection \<open>Where the constructor's exceptions come from\<close>

















end
